theory Spec2Isabelle
  imports Complex_Main
begin

section \<open>Quantized crossbar layers (MNSIM/Interface/layer.py)\<close>

text \<open>
  A shallow embedding of \<^verbatim>\<open>layer.py\<close>. Conventions of the model:
  \<^item> Python floats and tensor entries are exact real numbers: the rounding of floating-point
    arithmetic is not modelled. A tensor is the list of its entries; its shape is not
    modelled, so the shape-dependent library calls (\<^verbatim>\<open>torch.split\<close>, \<^verbatim>\<open>torch.cat\<close>,
    \<^verbatim>\<open>torch.stack\<close>/\<^verbatim>\<open>torch.sum\<close>, the sub-modules and the linear primitive) are fields of
    the layer.
  \<^item> A Python float that may be NaN (a scale read from the buffer, an estimated scale) is a
    \<open>real option\<close>, \<open>None\<close> being NaN.
  \<^item> A call either raises, or returns, or reaches a point where the source goes on with
    non-finite tensor entries; the model stops there with \<open>NonFinite\<close> and says nothing
    about what the source does afterwards, except for the buffer, which is followed exactly.
  \<^item> Bit widths are Python numbers with integer values: \<open>int\<close>.
  \<^item> The standard deviation is a real square root, which evaluates on the squares of
    rationals only.
\<close>

subsection \<open>Outcomes\<close>

datatype py_error = AssertionError | ZeroDivisionError | IndexError | RuntimeError

datatype 'a outcome = Raises py_error | NonFinite | Returns 'a

fun obind :: "'a outcome \<Rightarrow> ('a \<Rightarrow> 'b outcome) \<Rightarrow> 'b outcome" where
  "obind (Raises e) f = Raises e"
| "obind NonFinite f = NonFinite"
| "obind (Returns x) f = f x"

text \<open>A list comprehension whose body may raise: the first failure ends it.\<close>

fun omap :: "('a \<Rightarrow> 'b outcome) \<Rightarrow> 'a list \<Rightarrow> 'b list outcome" where
  "omap f [] = Returns []"
| "omap f (x # xs) = obind (f x) (\<lambda>y. obind (omap f xs) (\<lambda>ys. Returns (y # ys)))"

text \<open>\<^verbatim>\<open>range(n)\<close>: empty when \<open>n \<le> 0\<close>.\<close>

definition py_range :: "int \<Rightarrow> int list" where
  "py_range n = map int [0..<nat n]"

text \<open>\<^verbatim>\<open>xs[i]\<close> for an index that the loops keep non-negative.\<close>

definition py_nth :: "'a list \<Rightarrow> int \<Rightarrow> 'a outcome" where
  "py_nth xs i = (if 0 \<le> i \<and> i < int (length xs) then Returns (xs ! nat i) else Raises IndexError)"

subsection \<open>\<^verbatim>\<open>split_by_num\<close>\<close>

text \<open>
  \<^verbatim>\<open>
  def split_by_num(num, base):
      assert num > 0, "num should be greater than 0"
      assert base > 0, "base should be greater than 0"
      return [base] * (num // base) + [num % base] * (num % base > 0)
  \<close>
  A list times a bool repeats it once or not at all.
\<close>

definition split_by_num :: "int \<Rightarrow> int \<Rightarrow> int list outcome" where
  "split_by_num num base =
     (if \<not> num > 0 then Raises AssertionError
      else if \<not> base > 0 then Raises AssertionError
      else Returns (replicate (nat (num div base)) base
                    @ replicate (if num mod base > 0 then 1 else 0) (num mod base)))"

subsection \<open>Thresholds, cycles and entrywise tensor operations\<close>

text \<open>
  \<^verbatim>\<open>
  def _get_thres(bit_width):
      return 2 ** (bit_width - 1) - 1
  def _get_cycle(bit_width, bit_split):
      return math.ceil((bit_width - 1) / bit_split)
  \<close>
  A negative exponent gives a fraction in Python, hence \<open>powi\<close> into the reals; \<^verbatim>\<open>/\<close> on
  Python numbers raises on a zero divisor.
\<close>

definition get_thres :: "int \<Rightarrow> real" where
  "get_thres bit_width = 2 powi (bit_width - 1) - 1"

definition get_cycle :: "int \<Rightarrow> int \<Rightarrow> int outcome" where
  "get_cycle bit_width bit_split =
     (if bit_split = 0 then Raises ZeroDivisionError
      else Returns \<lceil>real_of_int (bit_width - 1) / real_of_int bit_split\<rceil>)"

type_synonym tensor = "real list"

text \<open>\<^verbatim>\<open>torch.round\<close> rounds to the nearest integer, a tie to the even one.\<close>

definition torch_round :: "real \<Rightarrow> real" where
  "torch_round x =
     (let f = \<lfloor>x\<rfloor>; d = x - of_int f
      in of_int (if d < 1 / 2 then f else if 1 / 2 < d then f + 1
                 else if even f then f else f + 1))"

text \<open>\<^verbatim>\<open>torch.clamp(x, min=lo, max=hi)\<close> is \<open>min (max x lo) hi\<close>, also when \<open>hi < lo\<close>.\<close>

definition torch_clamp :: "real \<Rightarrow> real \<Rightarrow> real \<Rightarrow> real" where
  "torch_clamp x lo hi = min (max x lo) hi"

text \<open>\<^verbatim>\<open>torch.fmod(a, b)\<close>: the remainder of the division truncated towards zero.\<close>

definition torch_fmod :: "real \<Rightarrow> real \<Rightarrow> real" where
  "torch_fmod a b = a - b * of_int (if 0 \<le> a / b then \<lfloor>a / b\<rfloor> else \<lceil>a / b\<rceil>)"

text \<open>
  \<^verbatim>\<open>torch.mean\<close> and \<^verbatim>\<open>torch.std\<close> (the unbiased estimator) over all entries; NaN on
  no entries, the deviation also on a single one.
\<close>

definition torch_mean :: "tensor \<Rightarrow> real option" where
  "torch_mean xs = (if xs = [] then None else Some (sum_list xs / real (length xs)))"

definition torch_std :: "tensor \<Rightarrow> real option" where
  "torch_std xs =
     (if length xs < 2 then None
      else let m = sum_list xs / real (length xs)
           in Some (sqrt (sum_list (map (\<lambda>x. (x - m)\<^sup>2) xs) / real (length xs - 1))))"

subsection \<open>\<^verbatim>\<open>QuantizeFunction.forward\<close>\<close>

text \<open>
  The configuration dictionary \<^verbatim>\<open>quantize_cfg\<close> with its keys \<^verbatim>\<open>mode\<close>, \<^verbatim>\<open>phase\<close> and
  \<^verbatim>\<open>bit\<close>, and a row \<^verbatim>\<open>last_bit_scale\<close> of the buffer: bit width and step size.
\<close>

record quantize_cfg =
  mode :: string
  phase :: "string option"
  cfg_bit :: int

type_synonym bit_scale = "int \<times> real option"

definition RATIO :: real where
  "RATIO = 707 / 1000"

text \<open>
  The block \<^verbatim>\<open># get scale\<close> (lines 47 to 64):
  \<^verbatim>\<open>
  if quantize_cfg["mode"] == "weight":
      scale = torch.max(torch.abs(inputs)).item()
  elif quantize_cfg["mode"] == "activation":
      r_scale = last_bit_scale[1].item() * _get_thres(last_bit_scale[0].item())
      if quantize_cfg["phase"] == "train":
          t_scale = (3*torch.std(inputs) + torch.abs(torch.mean(inputs))).item()
          if r_scale <= 0:
              scale = t_scale
          else:
              scale = QuantizeFunction.RATIO * r_scale + \
                  (1 - QuantizeFunction.RATIO) * t_scale
      elif quantize_cfg["phase"] == "test":
          scale = r_scale
      else:
          assert False, "phase should be train or test"
  else:
      assert False, "mode should be weight or activation"
  \<close>
  \<^verbatim>\<open>torch.max\<close> raises on a tensor without entries. A comparison with NaN is false.
\<close>

definition r_scale_of :: "bit_scale \<Rightarrow> real option" where
  "r_scale_of last_bit_scale =
     map_option (\<lambda>s. s * get_thres (fst last_bit_scale)) (snd last_bit_scale)"

definition t_scale_of :: "tensor \<Rightarrow> real option" where
  "t_scale_of inputs =
     (case (torch_std inputs, torch_mean inputs) of
        (Some sd, Some mu) \<Rightarrow> Some (3 * sd + \<bar>mu\<bar>)
      | _ \<Rightarrow> None)"

definition get_scale :: "tensor \<Rightarrow> quantize_cfg \<Rightarrow> bit_scale \<Rightarrow> real option outcome" where
  "get_scale inputs quantize_cfg last_bit_scale =
     (if mode quantize_cfg = ''weight'' then
        (if inputs = [] then Raises RuntimeError
         else Returns (Some (Max (set (map abs inputs)))))
      else if mode quantize_cfg = ''activation'' then
        (let r_scale = r_scale_of last_bit_scale
         in if phase quantize_cfg = Some ''train'' then
              (let t_scale = t_scale_of inputs
               in case r_scale of
                    None \<Rightarrow> Returns None
                  | Some r \<Rightarrow>
                      if r \<le> 0 then Returns t_scale
                      else Returns (map_option (\<lambda>t. RATIO * r + (1 - RATIO) * t) t_scale))
            else if phase quantize_cfg = Some ''test'' then Returns r_scale
            else Raises AssertionError)
      else Raises AssertionError)"

text \<open>
  The block \<^verbatim>\<open># quantize\<close> and the write to the buffer row (lines 65 to 74):
  \<^verbatim>\<open>
  bit = quantize_cfg["bit"]
  thres = _get_thres(bit)
  output = inputs / (scale / thres)
  output = torch.clamp(torch.round(output), min=-thres, max=thres)
  output = output / (thres / scale)
  last_bit_scale[0].fill_(bit)
  last_bit_scale[1].fill_(scale / thres)
  return output
  \<close>
  \<^verbatim>\<open>scale / thres\<close> and \<^verbatim>\<open>thres / scale\<close> divide Python floats: a zero divisor raises, in
  this order, before the row is written. With a NaN scale nothing raises once \<^verbatim>\<open>thres\<close> is
  not zero, the entries are NaN and the row gets the bit width and NaN. The result is the
  row after the call and the outcome.
\<close>

definition Quantize :: "tensor \<Rightarrow> quantize_cfg \<Rightarrow> bit_scale \<Rightarrow> bit_scale \<times> tensor outcome" where
  "Quantize inputs quantize_cfg last_bit_scale =
     (case get_scale inputs quantize_cfg last_bit_scale of
        Raises e \<Rightarrow> (last_bit_scale, Raises e)
      | NonFinite \<Rightarrow> (last_bit_scale, NonFinite)
      | Returns scale_opt \<Rightarrow>
          (let bit = cfg_bit quantize_cfg; thres = get_thres bit
           in if thres = 0 then (last_bit_scale, Raises ZeroDivisionError)
              else case scale_opt of
                     None \<Rightarrow> ((bit, None), NonFinite)
                   | Some scale \<Rightarrow>
                       if scale = 0 then (last_bit_scale, Raises ZeroDivisionError)
                       else (let output = map (\<lambda>x. x / (scale / thres)) inputs;
                                 output = map (\<lambda>x. torch_clamp (torch_round x) (- thres) thres) output;
                                 output = map (\<lambda>x. x / (thres / scale)) output
                             in ((bit, Some (scale / thres)), Returns output))))"

subsection \<open>\<^verbatim>\<open>split_by_bit\<close>\<close>

text \<open>
  \<^verbatim>\<open>
  def split_by_bit(tensor, scale, bit_width, bit_split):
      weight_cycle = _get_cycle(bit_width, bit_split) # weight cycle
      thres = _get_thres(bit_width) # threshold
      quantize_tensor = torch.clamp(torch.round(tensor / scale), min=-thres, max=thres)
      sign_tensor = torch.sign(quantize_tensor)
      abs_tensor = torch.abs(quantize_tensor)
      t_weight = [0] + \
          [torch.fmod(abs_tensor, 2**(bit_split*(i+1))) for i in range(weight_cycle-1)] + \
          [abs_tensor]
      o_weight = [
          torch.mul(sign_tensor, (t_weight[i+1] - t_weight[i]) / (2**(bit_split*i)))
          for i in range(weight_cycle)
      ]
      return o_weight
  \<close>
  \<^verbatim>\<open>tensor / scale\<close> does not raise: with a zero or NaN scale its entries are infinite or
  NaN (the sign of an infinity depends on the sign of the float zero), so the model stops.
  The leading \<^verbatim>\<open>0\<close> of \<^verbatim>\<open>t_weight\<close> is subtracted from a tensor entrywise: a tensor of
  zeros. \<^verbatim>\<open>t_weight\<close> has \<^verbatim>\<open>weight_cycle + 1\<close> elements whenever the last comprehension
  runs at all, so its indices are in range.
\<close>

definition split_by_bit :: "tensor \<Rightarrow> real option \<Rightarrow> int \<Rightarrow> int \<Rightarrow> tensor list outcome" where
  "split_by_bit tensor scale_opt bit_width bit_split =
     obind (get_cycle bit_width bit_split) (\<lambda>weight_cycle.
       let thres = get_thres bit_width
       in case scale_opt of
            None \<Rightarrow> NonFinite
          | Some scale \<Rightarrow>
              if scale = 0 then NonFinite
              else
                (let quantize_tensor =
                       map (\<lambda>x. torch_clamp (torch_round (x / scale)) (- thres) thres) tensor;
                     sign_tensor = map sgn quantize_tensor;
                     abs_tensor = map abs quantize_tensor;
                     t_weight = [map (\<lambda>x. 0) abs_tensor]
                       @ map (\<lambda>i. map (\<lambda>a. torch_fmod a (2 powi (bit_split * (i + 1)))) abs_tensor)
                             (py_range (weight_cycle - 1))
                       @ [abs_tensor];
                     o_weight =
                       map (\<lambda>i. map2 (*) sign_tensor
                                   (map (\<lambda>d. d / 2 powi (bit_split * i))
                                        (map2 (-) (t_weight ! nat (i + 1)) (t_weight ! nat i))))
                           (py_range weight_cycle)
                 in Returns o_weight))"

subsection \<open>\<^verbatim>\<open>BaseWeightLayer\<close>\<close>

text \<open>
  The configuration \<^verbatim>\<open>layer_ini\<close>: its entries \<^verbatim>\<open>"quantize"\<close> (bit widths under the keys
  \<^verbatim>\<open>"input"\<close>, \<^verbatim>\<open>"weight"\<close>, \<^verbatim>\<open>"output"\<close>) and \<^verbatim>\<open>"hardware"\<close>. The entry \<^verbatim>\<open>"layer"\<close> is
  read by the subclasses only.
\<close>

record quantize_ini =
  bits_input :: int
  bits_weight :: int
  bits_output :: int

record hardware_ini =
  xbar_row :: int
  cell_bit :: int
  dac_bit :: int
  adc_bit :: int
  point_shift :: int

record layer_cfg =
  quantize :: quantize_ini
  hardware :: hardware_ini

text \<open>
  A sub-module of \<^verbatim>\<open>layer_list\<close> (an \<^verbatim>\<open>nn.Conv2d\<close> or \<^verbatim>\<open>nn.Linear\<close> without bias): its
  weight and its call \<^verbatim>\<open>l(v)\<close>.
\<close>

record sub_layer =
  weight :: tensor
  call :: "tensor \<Rightarrow> tensor outcome"

text \<open>
  The layer object without its buffer: the attributes set by the constructor, the
  \<^verbatim>\<open>training\<close> flag of \<^verbatim>\<open>nn.Module\<close>, and the library calls whose result depends on the
  shapes: \<^verbatim>\<open>torch.split(t, n, dim=1)\<close>, \<^verbatim>\<open>torch.cat(ts, dim=1)\<close> and
  \<^verbatim>\<open>torch.sum(torch.stack(ts, dim=0), dim=0)\<close>.
\<close>

record layer =
  layer_ini :: layer_cfg
  input_split_num :: int
  layer_list :: "sub_layer list"
  partial_func :: "tensor \<Rightarrow> tensor \<Rightarrow> tensor outcome"
  training :: bool
  torch_split :: "tensor \<Rightarrow> int \<Rightarrow> tensor list outcome"
  torch_cat :: "tensor list \<Rightarrow> tensor outcome"
  torch_stack_sum :: "tensor list \<Rightarrow> tensor outcome"

text \<open>
  The buffer \<^verbatim>\<open>bit_scale_list\<close>, a table of three rows (index 0: input, 1: weight,
  2: output), each a bit width and a scale.
  \<^verbatim>\<open>
  def get_buffer_list(self):
      self.register_buffer("bit_scale_list", torch.FloatTensor([
          [self.layer_ini["quantize"]["input"], -1],
          [self.layer_ini["quantize"]["weight"], -1],
          [self.layer_ini["quantize"]["output"], -1],
      ]))
  \<close>
\<close>

record bit_scale_list =
  input_row :: bit_scale
  weight_row :: bit_scale
  output_row :: bit_scale

definition get_buffer_list :: "layer_cfg \<Rightarrow> bit_scale_list" where
  "get_buffer_list ini =
     \<lparr>input_row = (bits_input (quantize ini), Some (- 1)),
      weight_row = (bits_weight (quantize ini), Some (- 1)),
      output_row = (bits_output (quantize ini), Some (- 1))\<rparr>"

text \<open>A float that enters a computation: with NaN the model stops.\<close>

fun finite_float :: "real option \<Rightarrow> real outcome" where
  "finite_float None = NonFinite"
| "finite_float (Some x) = Returns x"

text \<open>\<^verbatim>\<open>a / b\<close> on Python floats.\<close>

definition py_div :: "real \<Rightarrow> real \<Rightarrow> real outcome" where
  "py_div a b = (if b = 0 then Raises ZeroDivisionError else Returns (a / b))"

text \<open>
  \<^verbatim>\<open>
  def get_quantize_weight_bit_list(self):
      weight_scale = self.bit_scale_list[1, 1].item()
      weight_bit_width = self.bit_scale_list[1, 0].item()
      weight_bit_split = self.layer_ini["hardware"]["cell_bit"]
      quantize_weight_bit_list = [
          split_by_bit(l.weight, weight_scale, weight_bit_width, weight_bit_split)
          for l in self.layer_list
      ]
      return quantize_weight_bit_list
  \<close>
\<close>

definition get_quantize_weight_bit_list :: "layer \<Rightarrow> bit_scale_list \<Rightarrow> tensor list list outcome" where
  "get_quantize_weight_bit_list self bsl =
     (let weight_scale = snd (weight_row bsl);
          weight_bit_width = fst (weight_row bsl);
          weight_bit_split = cell_bit (hardware (layer_ini self))
      in omap (\<lambda>l. split_by_bit (weight l) weight_scale weight_bit_width weight_bit_split)
              (layer_list self))"

text \<open>
  The body of the two inner loops of \<^verbatim>\<open>set_weights_forward\<close> (lines 234 to 242), for the
  digit pair \<open>(i, j)\<close>:
  \<^verbatim>\<open>
  tmp = self.partial_func(input_activation_bit_list[i], module_weight_bit_list[j])
  tmp = tmp * (mul_scale / output_scale * transfer_scale)
  tmp = torch.clamp(torch.round(tmp), min=-output_thres, max=output_thres)
  scale_point = (input_cycle-1-i)*self.layer_ini["hardware"]["dac_bit"] + \
      (weight_cycle-1-j)*self.layer_ini["hardware"]["cell_bit"]
  tmp = tmp / (transfer_scale * (2**scale_point))
  output_list.append(tmp)
  \<close>
  \<^verbatim>\<open>mul_scale / output_scale\<close> divides Python floats.
\<close>

definition digit_pair :: "layer \<Rightarrow> real \<Rightarrow> real \<Rightarrow> real \<Rightarrow> real \<Rightarrow> int \<Rightarrow> int
    \<Rightarrow> tensor list \<Rightarrow> tensor list \<Rightarrow> int \<Rightarrow> int \<Rightarrow> tensor outcome" where
  "digit_pair self mul_scale output_scale transfer_scale output_thres input_cycle weight_cycle
       input_activation_bit_list module_weight_bit_list i j =
     obind (py_nth input_activation_bit_list i) (\<lambda>input_digit.
     obind (py_nth module_weight_bit_list j) (\<lambda>weight_digit.
     obind (partial_func self input_digit weight_digit) (\<lambda>tmp.
     obind (py_div mul_scale output_scale) (\<lambda>ratio.
       let tmp = map (\<lambda>x. x * (ratio * transfer_scale)) tmp;
           tmp = map (\<lambda>x. torch_clamp (torch_round x) (- output_thres) output_thres) tmp;
           scale_point = (input_cycle - 1 - i) * dac_bit (hardware (layer_ini self))
                       + (weight_cycle - 1 - j) * cell_bit (hardware (layer_ini self));
           tmp = map (\<lambda>x. x / (transfer_scale * 2 powi scale_point)) tmp
       in Returns tmp))))"

text \<open>
  The first part of \<^verbatim>\<open>set_weights_forward\<close> (lines 201 to 242), up to the complete
  \<^verbatim>\<open>output_list\<close>:
  \<^verbatim>\<open>
  assert not self.training, "function is set_weights_forward, but training"
  input_list = torch.split(inputs, self.input_split_num, dim=1)
  weight_cycle = _get_cycle(self.bit_scale_list[1, 0].item(), self.layer_ini["hardware"]["cell_bit"])
  input_cycle = _get_cycle(self.bit_scale_list[0, 0].item(), self.layer_ini["hardware"]["dac_bit"])
  Q = self.layer_ini["hardware"]["adc_bit"]
  pf = self.layer_ini["hardware"]["point_shift"]
  output_scale = self.bit_scale_list[2, 1].item() * \
      _get_thres(self.bit_scale_list[2, 0].item())
  mul_scale = self.bit_scale_list[1, 1].item() * self.bit_scale_list[0, 1].item() * \
      (2 ** ((weight_cycle - 1)*self.layer_ini["hardware"]["cell_bit"])) * \
      (2 ** ((input_cycle - 1)*self.layer_ini["hardware"]["dac_bit"]))
  transfer_scale = 2 ** (pf + Q - 1)
  output_thres = _get_thres(Q)
  output_list = []
  for layer_num, module_weight_bit_list in enumerate(quantize_weight_bit_list):
      input_activation_bit_list = split_by_bit(input_list[layer_num], \
          self.bit_scale_list[0, 1].item(), self.bit_scale_list[0, 0].item(),
          self.layer_ini["hardware"]["dac_bit"],
      )
      for i in range(input_cycle):
          for j in range(weight_cycle):
              ...
  \<close>
  A NaN scale in the buffer makes \<^verbatim>\<open>output_scale\<close> or \<^verbatim>\<open>mul_scale\<close> NaN.
\<close>

definition partial_sum_list :: "layer \<Rightarrow> bit_scale_list \<Rightarrow> tensor \<Rightarrow> tensor list list
    \<Rightarrow> tensor list outcome" where
  "partial_sum_list self bsl inputs quantize_weight_bit_list =
     (if training self then Raises AssertionError
      else
        obind (torch_split self inputs (input_split_num self)) (\<lambda>input_list.
        obind (get_cycle (fst (weight_row bsl)) (cell_bit (hardware (layer_ini self)))) (\<lambda>weight_cycle.
        obind (get_cycle (fst (input_row bsl)) (dac_bit (hardware (layer_ini self)))) (\<lambda>input_cycle.
        let Q = adc_bit (hardware (layer_ini self));
            pf = point_shift (hardware (layer_ini self))
        in
        obind (finite_float (snd (output_row bsl))) (\<lambda>output_step.
        let output_scale = output_step * get_thres (fst (output_row bsl))
        in
        obind (finite_float (snd (weight_row bsl))) (\<lambda>weight_step.
        obind (finite_float (snd (input_row bsl))) (\<lambda>input_step.
        let mul_scale = weight_step * input_step
                * 2 powi ((weight_cycle - 1) * cell_bit (hardware (layer_ini self)))
                * 2 powi ((input_cycle - 1) * dac_bit (hardware (layer_ini self)));
            transfer_scale = 2 powi (pf + Q - 1);
            output_thres = get_thres Q
        in
        obind (omap (\<lambda>(layer_num, module_weight_bit_list).
                 obind (py_nth input_list (int layer_num)) (\<lambda>input_part.
                 obind (split_by_bit input_part (snd (input_row bsl)) (fst (input_row bsl))
                          (dac_bit (hardware (layer_ini self)))) (\<lambda>input_activation_bit_list.
                 obind (omap (\<lambda>i.
                          omap (\<lambda>j. digit_pair self mul_scale output_scale transfer_scale output_thres
                                        input_cycle weight_cycle
                                        input_activation_bit_list module_weight_bit_list i j)
                               (py_range weight_cycle))
                        (py_range input_cycle)) (\<lambda>outs. Returns (concat outs)))))
               (enumerate 0 quantize_weight_bit_list)) (\<lambda>outs. Returns (concat outs)))))))))"

text \<open>
  The rest of \<^verbatim>\<open>set_weights_forward\<close> (lines 243 to 248):
  \<^verbatim>\<open>
  output = torch.sum(torch.stack(output_list, dim=0), dim=0)
  output_thres = _get_thres(self.bit_scale_list[2, 0].item())
  output = torch.clamp(torch.round(output*output_thres), min=-output_thres, max=output_thres)
  return output / (output_thres / output_scale)
  \<close>
  \<^verbatim>\<open>output_thres / output_scale\<close> divides Python floats; a zero quotient would make the
  entries of the result non-finite.
\<close>

definition set_weights_forward :: "layer \<Rightarrow> bit_scale_list \<Rightarrow> tensor \<Rightarrow> tensor list list
    \<Rightarrow> tensor outcome" where
  "set_weights_forward self bsl inputs quantize_weight_bit_list =
     obind (partial_sum_list self bsl inputs quantize_weight_bit_list) (\<lambda>output_list.
     obind (torch_stack_sum self output_list) (\<lambda>output.
     obind (finite_float (snd (output_row bsl))) (\<lambda>output_step.
       let output_scale = output_step * get_thres (fst (output_row bsl));
           output_thres = get_thres (fst (output_row bsl));
           output = map (\<lambda>x. torch_clamp (torch_round (x * output_thres)) (- output_thres) output_thres)
                        output
       in obind (py_div output_thres output_scale) (\<lambda>d.
            if d = 0 then NonFinite else Returns (map (\<lambda>x. x / d) output)))))"

text \<open>
  \<^verbatim>\<open>
  def forward(self, inputs, method="SINGLE_FIX_TEST", input_config=None):
      if method == "TRADITION":
          input_list = torch.split(inputs, self.input_split_num, dim=1)
          output_list = [l(v) for l, v in zip(self.layer_list, input_list)]
          return torch.sum(torch.stack(output_list, dim=0), dim=0)
      if method == "FIX_TRAIN":
          weight_total = torch.cat([l.weight for l in self.layer_list], dim=1)
          quantize_weight =  Quantize(weight_total, {
              "mode": "weight",
              "phase": None,
              "bit": self.bit_scale_list[1, 0].item()
          }, self.bit_scale_list[1])
          output = self.partial_func(inputs, quantize_weight)
          quantize_output = Quantize(output, {
              "mode": "activation",
              "phase": "train" if self.training else "test",
              "bit": self.bit_scale_list[2, 0].item()
          }, self.bit_scale_list[2])
          return quantize_output
      if method == "SINGLE_FIX_TEST":
          assert not self.training, "method is SINGLE_FIX_TEST, but now is training"
          assert input_config is not None, "method is SINGLE_FIX_TEST, but input_config is None"
          self.bit_scale_list[0].copy_(input_config[0]) # for weight_layer, only be one input
          quantize_weight_bit_list = self.get_quantize_weight_bit_list()
          quantize_output = self.set_weights_forward(inputs, quantize_weight_bit_list)
          return quantize_output
      assert False, "method should be TRADITION, FIX_TRAIN or SINGLE_FIX_TEST"
  \<close>
  The result is the buffer after the call and the outcome. \<^verbatim>\<open>input_config\<close> is \<^verbatim>\<open>None\<close> or
  a list of rows.
\<close>

definition forward :: "layer \<Rightarrow> bit_scale_list \<Rightarrow> tensor \<Rightarrow> string \<Rightarrow> bit_scale list option
    \<Rightarrow> bit_scale_list \<times> tensor outcome" where
  "forward self bsl inputs method input_config =
     (if method = ''TRADITION'' then
        (bsl,
         obind (torch_split self inputs (input_split_num self)) (\<lambda>input_list.
         obind (omap (\<lambda>(l, v). call l v) (zip (layer_list self) input_list)) (\<lambda>output_list.
         torch_stack_sum self output_list)))
      else if method = ''FIX_TRAIN'' then
        (case torch_cat self (map weight (layer_list self)) of
           Raises e \<Rightarrow> (bsl, Raises e)
         | NonFinite \<Rightarrow> (bsl, NonFinite)
         | Returns weight_total \<Rightarrow>
             (case Quantize weight_total
                     \<lparr>mode = ''weight'', phase = None, cfg_bit = fst (weight_row bsl)\<rparr>
                     (weight_row bsl) of
                (row1, result1) \<Rightarrow>
                  (let bsl1 = bsl\<lparr>weight_row := row1\<rparr>
                   in case result1 of
                        Raises e \<Rightarrow> (bsl1, Raises e)
                      | NonFinite \<Rightarrow> (bsl1, NonFinite)
                      | Returns quantize_weight \<Rightarrow>
                          (case partial_func self inputs quantize_weight of
                             Raises e \<Rightarrow> (bsl1, Raises e)
                           | NonFinite \<Rightarrow> (bsl1, NonFinite)
                           | Returns out \<Rightarrow>
                               (case Quantize out
                                       \<lparr>mode = ''activation'',
                                        phase = Some (if training self then ''train'' else ''test''),
                                        cfg_bit = fst (output_row bsl1)\<rparr>
                                       (output_row bsl1) of
                                  (row2, quantize_output) \<Rightarrow>
                                    (bsl1\<lparr>output_row := row2\<rparr>, quantize_output))))))
      else if method = ''SINGLE_FIX_TEST'' then
        (if training self then (bsl, Raises AssertionError)
         else case input_config of
                None \<Rightarrow> (bsl, Raises AssertionError)
              | Some rows \<Rightarrow>
                  (case rows of
                     [] \<Rightarrow> (bsl, Raises IndexError)
                   | row # _ \<Rightarrow>
                       (let bsl0 = bsl\<lparr>input_row := row\<rparr>
                        in (bsl0,
                            obind (get_quantize_weight_bit_list self bsl0) (\<lambda>quantize_weight_bit_list.
                            set_weights_forward self bsl0 inputs quantize_weight_bit_list)))))
      else (bsl, Raises AssertionError))"

text \<open>
  A caller making one \<^verbatim>\<open>forward\<close> call after another on the same layer object, going on
  after a call that failed. Between the calls anything but the buffer may have changed (the
  training flag, the weights), so every call comes with the layer as it is then.
\<close>

fun run_forwards :: "bit_scale_list \<Rightarrow> (layer \<times> tensor \<times> string \<times> bit_scale list option) list
    \<Rightarrow> bit_scale_list" where
  "run_forwards bsl [] = bsl"
| "run_forwards bsl ((self, inputs, method, input_config) # calls) =
     run_forwards (fst (forward self bsl inputs method input_config)) calls"

subsection \<open>The rescaling of a partial sum as specified\<close>

text \<open>
  Steps 4 and 5 of the hardware-accurate inference in the words of the specification, for one
  entry \<open>raw\<close> of the raw partial sum of the digit pair \<open>(i, j)\<close>: multiply by
  \<open>mul_scale / output_scale * transfer_scale\<close>, round and clamp to the threshold of
  \<open>adc_bit\<close>, divide by \<open>transfer_scale * 2 ^ scale_point\<close>.
\<close>

definition rescale_spec :: "hardware_ini \<Rightarrow> real \<Rightarrow> real \<Rightarrow> real \<Rightarrow> int \<Rightarrow> int \<Rightarrow> int \<Rightarrow> int \<Rightarrow> int
    \<Rightarrow> real \<Rightarrow> real" where
  "rescale_spec hw weight_step input_step output_step output_bits weight_cycle input_cycle i j raw =
     (let mul_scale = weight_step * input_step * 2 powi ((weight_cycle - 1) * cell_bit hw)
                        * 2 powi ((input_cycle - 1) * dac_bit hw);
          transfer_scale = 2 powi (point_shift hw + adc_bit hw - 1);
          output_scale = output_step * get_thres output_bits;
          rescaled = raw * (mul_scale / output_scale * transfer_scale);
          readout = torch_clamp (torch_round rescaled) (- get_thres (adc_bit hw)) (get_thres (adc_bit hw));
          scale_point = (input_cycle - 1 - i) * dac_bit hw + (weight_cycle - 1 - j) * cell_bit hw
      in readout / (transfer_scale * 2 powi scale_point))"

subsection \<open>An instance\<close>

text \<open>
  A fully connected layer with two input features and one output feature on a crossbar of
  four rows, hence with a single partition, for a batch of one: the linear primitive is the
  inner product, splitting and concatenating leave the single part as it is, and the sum of
  a stack of one-entry tensors is the sum of their entries.
\<close>

definition example_fc :: layer where
  "example_fc =
     \<lparr>layer_ini =
        \<lparr>quantize = \<lparr>bits_input = 3, bits_weight = 3, bits_output = 3\<rparr>,
         hardware = \<lparr>xbar_row = 4, cell_bit = 1, dac_bit = 2, adc_bit = 8, point_shift = 0\<rparr>\<rparr>,
      input_split_num = 4,
      layer_list = [\<lparr>weight = [1, - 2], call = (\<lambda>v. Returns [sum_list (map2 (*) v [1, - 2])])\<rparr>],
      partial_func = (\<lambda>v w. Returns [sum_list (map2 (*) v w)]),
      training = False,
      torch_split = (\<lambda>t n. Returns [t]),
      torch_cat = (\<lambda>ts. Returns (concat ts)),
      torch_stack_sum = (\<lambda>ts. if ts = [] then Raises RuntimeError else Returns [sum_list (concat ts)])\<rparr>"

definition example_buffer :: bit_scale_list where
  "example_buffer =
     \<lparr>input_row = (3, Some 1), weight_row = (3, Some 1), output_row = (3, Some 1)\<rparr>"

section \<open>Properties\<close>

subsection \<open>Digit decomposition\<close>

lemma torch_round_of_int [simp]: "torch_round (of_int n) = of_int n"
  by (simp add: torch_round_def Let_def)

lemma torch_round_in_Ints: "torch_round x \<in> \<int>"
  by (simp add: torch_round_def Let_def)

lemma get_thres_nat: "1 \<le> b \<Longrightarrow> get_thres b = of_int (2 ^ nat (b - 1) - 1)"
  by (simp add: get_thres_def power_int_def)

lemma get_thres_neg: "b \<le> 0 \<Longrightarrow> get_thres b < 0"
  using power_int_strict_increasing [of "b - 1" 0 "2::real"] by (simp add: get_thres_def)

lemma torch_fmod_of_int:
  assumes "0 \<le> a" "0 < b"
  shows "torch_fmod (of_int a) (of_int b) = of_int (a mod b)"
proof -
  have "0 \<le> real_of_int a / real_of_int b" using assms by simp
  then have "torch_fmod (of_int a) (of_int b) = of_int a - of_int b * of_int (a div b)"
    by (simp add: torch_fmod_def floor_divide_of_int_eq)
  also have "\<dots> = of_int (a - b * (a div b))" by simp
  also have "a - b * (a div b) = a mod b" by (simp add: minus_mult_div_eq_mod)
  finally show ?thesis .
qed

lemma torch_fmod_of_nat:
  "0 < b \<Longrightarrow> torch_fmod (real a) (real b) = real (a mod b)"
proof -
  assume "0 < b"
  then have "torch_fmod (of_int (int a)) (of_int (int b)) = of_int (int a mod int b)"
    by (intro torch_fmod_of_int) simp_all
  moreover have "int a mod int b = int (a mod b)" by (simp add: zmod_int)
  ultimately show ?thesis by simp
qed

lemma nth_t_weight:
  assumes "1 \<le> n" "j \<le> n"
  shows "([Z] @ map F (map int [0..<n - 1]) @ [A]) ! j
         = (if j = 0 then Z else if j < n then F (int (j - 1)) else A)"
  using assms by (auto simp: nth_append nth_Cons')

text \<open>The residues kept in \<^verbatim>\<open>t_weight\<close>, entry by entry.\<close>

lemma residue_entry:
  assumes c: "0 < c" and n: "1 \<le> n" and j: "j \<le> n" and M: "M < 2 ^ (c * n)"
  shows "(if j = 0 then 0 else if j < n then torch_fmod (real M) (2 powi (int c * (int (j - 1) + 1))) else real M)
         = real (M mod 2 ^ (c * j))"
proof -
  consider "j = 0" | "0 < j" "j < n" | "j = n" "0 < j" using j n by linarith
  then show ?thesis
  proof cases
    case 1 then show ?thesis by simp
  next
    case 2
    have e: "int c * (int (j - 1) + 1) = int (c * j)" using 2 by (simp add: of_nat_diff)
    have "(2::real) powi int (c * j) = 2 ^ (c * j)" by (rule power_int_of_nat)
    then have "(2::real) powi (int c * (int (j - 1) + 1)) = real (2 ^ (c * j))"
      unfolding e by simp
    then show ?thesis using 2 by (simp add: torch_fmod_of_nat del: of_nat_power)
  next
    case 3 then show ?thesis using M by simp
  qed
qed

lemma digit_step:
  "real (M mod 2 ^ (c * Suc i)) - real (M mod 2 ^ (c * i)) = real (2 ^ (c * i) * (M div 2 ^ (c * i) mod 2 ^ c))"
proof -
  have "M mod 2 ^ (c * Suc i) = M mod (2 ^ (c * i) * 2 ^ c)" by (simp add: power_add mult.commute)
  also have "\<dots> = 2 ^ (c * i) * (M div 2 ^ (c * i) mod 2 ^ c) + M mod 2 ^ (c * i)"
    by (rule mod_mult2_eq)
  finally show ?thesis by simp
qed

lemma split_by_bit_entries:
  fixes bit_width cell_bit :: int
  assumes cb: "cell_bit \<noteq> 0" and sc: "scale \<noteq> 0"
  defines "n \<equiv> nat \<lceil>real_of_int (bit_width - 1) / real_of_int cell_bit\<rceil>"
  defines "T \<equiv> get_thres bit_width"
  defines "G \<equiv> \<lambda>j a. (if j = 0 then 0 else if j < n
                  then torch_fmod a (2 powi (cell_bit * (int (j - 1) + 1))) else a)"
  shows "split_by_bit tensor (Some scale) bit_width cell_bit =
     Returns (map (\<lambda>i. map (\<lambda>x. sgn (torch_clamp (torch_round (x / scale)) (- T) T)
                 * ((G (Suc i) \<bar>torch_clamp (torch_round (x / scale)) (- T) T\<bar>
                     - G i \<bar>torch_clamp (torch_round (x / scale)) (- T) T\<bar>) / 2 powi (cell_bit * int i))) tensor)
              [0..<n])"
proof -
  define wc where "wc = \<lceil>real_of_int (bit_width - 1) / real_of_int cell_bit\<rceil>"
  define Q where "Q = map (\<lambda>x. torch_clamp (torch_round (x / scale)) (- T) T) tensor"
  define A where "A = map abs Q"
  define tw where "tw = [map (\<lambda>x. 0) A]
       @ map (\<lambda>i. map (\<lambda>a. torch_fmod a (2 powi (cell_bit * (i + 1)))) A) (py_range (wc - 1))
       @ [A]"
  have n: "n = nat wc" by (simp add: n_def wc_def)
  have n1: "nat (wc - 1) = n - 1" unfolding n by linarith
  have tw_nth: "tw ! j = map (G j) A" if "j \<le> n" "1 \<le> n" for j
  proof -
    have "tw ! j = (if j = 0 then map (\<lambda>x. 0) A else if j < n
        then map (\<lambda>a. torch_fmod a (2 powi (cell_bit * (int (j - 1) + 1)))) A else A)"
      unfolding tw_def py_range_def n1 using that by (subst nth_t_weight) simp_all
    then show ?thesis by (simp add: G_def)
  qed
  have unfold: "split_by_bit tensor (Some scale) bit_width cell_bit =
     Returns (map (\<lambda>i. map2 (*) (map sgn Q)
                (map (\<lambda>d. d / 2 powi (cell_bit * i)) (map2 (-) (tw ! nat (i + 1)) (tw ! nat i))))
              (py_range wc))"
    unfolding split_by_bit_def get_cycle_def Let_def wc_def Q_def A_def tw_def T_def
    by (simp only: cb sc if_False obind.simps option.case)
  have slice: "map2 (*) (map sgn Q)
                (map (\<lambda>d. d / 2 powi (cell_bit * int i)) (map2 (-) (tw ! nat (int i + 1)) (tw ! nat (int i))))
        = map (\<lambda>x. sgn (torch_clamp (torch_round (x / scale)) (- T) T)
                 * ((G (Suc i) \<bar>torch_clamp (torch_round (x / scale)) (- T) T\<bar>
                     - G i \<bar>torch_clamp (torch_round (x / scale)) (- T) T\<bar>) / 2 powi (cell_bit * int i))) tensor"
    if "i < n" for i
  proof -
    have a: "tw ! nat (int i + 1) = map (G (Suc i)) A" using that tw_nth [of "Suc i"] by (simp add: nat_add_distrib)
    have b: "tw ! nat (int i) = map (G i) A" using that tw_nth [of i] by simp
    have "map2 (-) (map (G (Suc i)) A) (map (G i) A) = map (\<lambda>a. G (Suc i) a - G i a) A"
      by (rule map2_map_map)
    then have "map (\<lambda>d. d / 2 powi (cell_bit * int i)) (map2 (-) (map (G (Suc i)) A) (map (G i) A))
        = map (\<lambda>q. (G (Suc i) \<bar>q\<bar> - G i \<bar>q\<bar>) / 2 powi (cell_bit * int i)) Q"
      by (simp add: A_def comp_def)
    then have "map2 (*) (map sgn Q)
          (map (\<lambda>d. d / 2 powi (cell_bit * int i)) (map2 (-) (map (G (Suc i)) A) (map (G i) A)))
        = map (\<lambda>q. sgn q * ((G (Suc i) \<bar>q\<bar> - G i \<bar>q\<bar>) / 2 powi (cell_bit * int i))) Q"
      by (simp only: map2_map_map)
    then show ?thesis unfolding a b
      by (simp add: Q_def comp_def)
  qed
  let ?F = "\<lambda>i. map2 (*) (map sgn Q)
                (map (\<lambda>d. d / 2 powi (cell_bit * i)) (map2 (-) (tw ! nat (i + 1)) (tw ! nat i)))"
  let ?R = "\<lambda>i. map (\<lambda>x. sgn (torch_clamp (torch_round (x / scale)) (- T) T)
                 * ((G (Suc i) \<bar>torch_clamp (torch_round (x / scale)) (- T) T\<bar>
                     - G i \<bar>torch_clamp (torch_round (x / scale)) (- T) T\<bar>) / 2 powi (cell_bit * int i))) tensor"
  have "map ?F (map int [0..<n]) = map (\<lambda>i. ?F (int i)) [0..<n]"
    by (simp add: comp_def)
  also have "\<dots> = map ?R [0..<n]"
  proof (rule map_cong [OF refl])
    fix i assume "i \<in> set [0..<n]"
    then have "i < n" by simp
    from slice [OF this] show "?F (int i) = ?R i" .
  qed
  finally show ?thesis unfolding unfold py_range_def n [symmetric] by (rule arg_cong)
qed


lemma slice_entry_digit:
  assumes c: "0 < c" and i: "i < n" and M: "M < 2 ^ (c * n)"
  defines "G \<equiv> \<lambda>j a. (if j = 0 then 0 else if j < n
                  then torch_fmod a (2 powi (int c * (int (j - 1) + 1))) else a)"
  shows "(G (Suc i) (real M) - G i (real M)) / 2 powi (int c * int i) = real (M div 2 ^ (c * i) mod 2 ^ c)"
proof -
  have n: "1 \<le> n" using i by simp
  have a: "G (Suc i) (real M) = real (M mod 2 ^ (c * Suc i))"
    unfolding G_def using i by (intro residue_entry [OF c n _ M]) simp
  have b: "G i (real M) = real (M mod 2 ^ (c * i))"
    unfolding G_def using i by (intro residue_entry [OF c n _ M]) simp
  have p: "(2::real) powi (int c * int i) = 2 ^ (c * i)"
    using power_int_of_nat [of "2::real" "c * i"] by simp
  show ?thesis unfolding a b p digit_step by simp
qed

lemma cycle_covers:
  fixes bit_width cell_bit :: int
  assumes "1 \<le> cell_bit" "1 \<le> bit_width"
  shows "nat (bit_width - 1) \<le> nat cell_bit * nat \<lceil>real_of_int (bit_width - 1) / real_of_int cell_bit\<rceil>"
proof -
  let ?wc = "\<lceil>real_of_int (bit_width - 1) / real_of_int cell_bit\<rceil>"
  have pos: "0 < real_of_int cell_bit" using assms by simp
  have "real_of_int (bit_width - 1) / real_of_int cell_bit \<le> of_int ?wc" by (rule le_of_int_ceiling)
  then have "real_of_int (bit_width - 1) \<le> of_int ?wc * real_of_int cell_bit"
    by (rule iffD1 [OF pos_divide_le_eq [OF pos]])
  then have "real_of_int (bit_width - 1) \<le> real_of_int (?wc * cell_bit)" by simp
  then have le: "bit_width - 1 \<le> ?wc * cell_bit" by (simp only: of_int_le_iff)
  have "0 \<le> real_of_int (bit_width - 1) / real_of_int cell_bit"
    using assms by (intro divide_nonneg_pos) simp_all
  then have "- 1 < real_of_int (bit_width - 1) / real_of_int cell_bit" by linarith
  then have "0 \<le> ?wc" by (simp only: zero_le_ceiling)
  then have "nat cell_bit * nat ?wc = nat (?wc * cell_bit)"
    using assms by (simp add: nat_mult_distrib mult.commute)
  then show ?thesis using le by simp
qed

lemma level_magnitude:
  fixes bit_width cell_bit :: int
  assumes cb: "1 \<le> cell_bit"
    and q: "\<bar>torch_clamp (torch_round y) (- get_thres bit_width) (get_thres bit_width)\<bar> \<le> get_thres bit_width"
  obtains M :: nat where
    "\<bar>torch_clamp (torch_round y) (- get_thres bit_width) (get_thres bit_width)\<bar> = real M"
    "M < 2 ^ (nat cell_bit * nat \<lceil>real_of_int (bit_width - 1) / real_of_int cell_bit\<rceil>)"
proof -
  let ?T = "get_thres bit_width"
  let ?q = "torch_clamp (torch_round y) (- ?T) ?T"
  have "0 \<le> ?T" using q by linarith
  then have bw: "1 \<le> bit_width" using get_thres_neg [of bit_width] by linarith
  have T: "?T = of_int (2 ^ nat (bit_width - 1) - 1)" by (rule get_thres_nat [OF bw])
  obtain r where r: "torch_round y = of_int r" using torch_round_in_Ints [of y] by (auto elim: Ints_cases)
  have "?q = of_int (min (max r (- (2 ^ nat (bit_width - 1) - 1))) (2 ^ nat (bit_width - 1) - 1))"
    unfolding torch_clamp_def T r by (simp add: of_int_min of_int_max)
  then obtain z where z: "?q = of_int z" by blast
  have abs: "\<bar>?q\<bar> = real (nat \<bar>z\<bar>)" unfolding z by simp
  have "real (nat \<bar>z\<bar>) \<le> ?T" using q unfolding abs .
  then have "real (nat \<bar>z\<bar>) \<le> real_of_int (2 ^ nat (bit_width - 1) - 1)" unfolding T .
  then have "int (nat \<bar>z\<bar>) \<le> 2 ^ nat (bit_width - 1) - 1"
    by (metis of_int_le_iff of_int_of_nat_eq)
  then have "int (nat \<bar>z\<bar>) < 2 ^ nat (bit_width - 1)" by simp
  then have "nat \<bar>z\<bar> < 2 ^ nat (bit_width - 1)"
    by (metis of_nat_less_iff of_nat_numeral of_nat_power)
  also have "\<dots> \<le> (2::nat) ^ (nat cell_bit * nat \<lceil>real_of_int (bit_width - 1) / real_of_int cell_bit\<rceil>)"
    by (intro power_increasing cycle_covers [OF cb bw]) simp
  finally show ?thesis using that abs by blast
qed


lemma digits_sum:
  assumes M: "M < 2 ^ (c * n)"
  shows "(\<Sum>i<n. real (M div 2 ^ (c * i) mod 2 ^ c) * 2 ^ (c * i)) = real M"
proof -
  have "(\<Sum>i<n. real (M div 2 ^ (c * i) mod 2 ^ c) * 2 ^ (c * i))
      = (\<Sum>i<n. real (M mod 2 ^ (c * Suc i)) - real (M mod 2 ^ (c * i)))"
  proof (rule sum.cong [OF refl])
    fix i
    show "real (M div 2 ^ (c * i) mod 2 ^ c) * 2 ^ (c * i)
        = real (M mod 2 ^ (c * Suc i)) - real (M mod 2 ^ (c * i))"
      unfolding digit_step by simp
  qed
  also have "\<dots> = real (M mod 2 ^ (c * n)) - real (M mod 2 ^ (c * 0))"
    by (rule sum_lessThan_telescope)
  also have "\<dots> = real M" using M by simp
  finally show ?thesis .
qed

lemma level_within_thres:
  assumes "1 \<le> bit_width"
  shows "\<bar>torch_clamp y (- get_thres bit_width) (get_thres bit_width)\<bar> \<le> get_thres bit_width"
proof -
  have "0 \<le> get_thres bit_width" unfolding get_thres_nat [OF assms] by simp
  then show ?thesis by (auto simp: torch_clamp_def min_def max_def)
qed

text \<open>
  C1. Take a tensor, a non-zero scale and \<open>cell_bit \<ge> 1\<close>, and let the quantization level
  of an entry \<open>x\<close> be \<open>q = clamp (round (x / scale)) (- threshold) threshold\<close> with
  \<open>threshold = 2 ^ (bit_width - 1) - 1\<close>. If every level satisfies \<open>\<bar>q\<bar> \<le> threshold\<close>
  (which \<open>level_within_thres\<close> gives for every bit width from 1 on), then \<open>split_by_bit\<close>
  returns exactly \<open>\<lceil>(bit_width - 1) / cell_bit\<rceil>\<close> slices, each of the shape of the tensor;
  every entry of a slice is the sign of \<open>q\<close> times a natural number below \<open>2 ^ cell_bit\<close>,
  and the positional sum \<open>\<Sum>i. slice i * 2 ^ (cell_bit * i)\<close> is \<open>q\<close>.
\<close>

theorem split_by_bit_digits:
  fixes bit_width cell_bit :: int and scale :: real and tensor :: "real list"
  defines "q \<equiv> \<lambda>x. torch_clamp (torch_round (x / scale)) (- get_thres bit_width) (get_thres bit_width)"
  assumes cb: "1 \<le> cell_bit" and sc: "scale \<noteq> 0"
    and lv: "\<forall>x \<in> set tensor. \<bar>q x\<bar> \<le> get_thres bit_width"
  shows "\<exists>slices. split_by_bit tensor (Some scale) bit_width cell_bit = Returns slices
     \<and> length slices = nat \<lceil>real_of_int (bit_width - 1) / real_of_int cell_bit\<rceil>
     \<and> (\<forall>i<length slices. length (slices ! i) = length tensor
          \<and> (\<forall>k<length tensor. \<exists>m::nat. m < 2 ^ nat cell_bit
                 \<and> slices ! i ! k = sgn (q (tensor ! k)) * real m))
     \<and> (\<forall>k<length tensor. (\<Sum>i<length slices. slices ! i ! k * 2 ^ (nat cell_bit * i)) = q (tensor ! k))"
proof -
  define c where "c = nat cell_bit"
  define n where "n = nat \<lceil>real_of_int (bit_width - 1) / real_of_int cell_bit\<rceil>"
  define G where "G = (\<lambda>j a. (if j = 0 then 0 else if j < n
                  then torch_fmod a (2 powi (cell_bit * (int (j - 1) + 1))) else a))"
  define E where "E = (\<lambda>i x. sgn (q x) * ((G (Suc i) \<bar>q x\<bar> - G i \<bar>q x\<bar>) / 2 powi (cell_bit * int i)))"
  define slices where "slices = map (\<lambda>i. map (E i) tensor) [0..<n]"
  have c: "0 < c" "cell_bit = int c" using cb by (simp_all add: c_def)
  have ret: "split_by_bit tensor (Some scale) bit_width cell_bit = Returns slices"
    unfolding slices_def E_def G_def n_def q_def
    using cb sc by (intro split_by_bit_entries) simp_all
  have len: "length slices = n" by (simp add: slices_def)
  have entry: "\<exists>M::nat. M < 2 ^ (c * n) \<and> \<bar>q x\<bar> = real M
                \<and> (\<forall>i<n. E i x = sgn (q x) * real (M div 2 ^ (c * i) mod 2 ^ c))"
    if x: "x \<in> set tensor" for x
  proof -
    from lv x have "\<bar>q x\<bar> \<le> get_thres bit_width" by blast
    then obtain M :: nat where M: "\<bar>q x\<bar> = real M" "M < 2 ^ (c * n)"
      unfolding q_def c_def n_def by (rule level_magnitude [OF cb])
    have "E i x = sgn (q x) * real (M div 2 ^ (c * i) mod 2 ^ c)" if "i < n" for i
      unfolding E_def G_def M(1) c(2) using slice_entry_digit [OF c(1) that M(2)] by simp
    with M show ?thesis by blast
  qed
  have nth: "slices ! i ! k = E i (tensor ! k)" if "i < n" "k < length tensor" for i k
    using that by (simp add: slices_def)
  have A: "\<forall>i<length slices. length (slices ! i) = length tensor
          \<and> (\<forall>k<length tensor. \<exists>m::nat. m < 2 ^ nat cell_bit
                 \<and> slices ! i ! k = sgn (q (tensor ! k)) * real m)"
  proof (intro allI impI conjI)
    fix i assume "i < length slices"
    then show "length (slices ! i) = length tensor" by (simp add: slices_def)
  next
    fix i k assume i: "i < length slices" and k: "k < length tensor"
    from k have "tensor ! k \<in> set tensor" by simp
    from entry [OF this] obtain M :: nat where
      M: "\<forall>i<n. E i (tensor ! k) = sgn (q (tensor ! k)) * real (M div 2 ^ (c * i) mod 2 ^ c)" by blast
    have "M div 2 ^ (c * i) mod 2 ^ c < 2 ^ nat cell_bit" by (simp add: c_def)
    moreover have "slices ! i ! k = sgn (q (tensor ! k)) * real (M div 2 ^ (c * i) mod 2 ^ c)"
      using M i k nth len by simp
    ultimately show "\<exists>m::nat. m < 2 ^ nat cell_bit \<and> slices ! i ! k = sgn (q (tensor ! k)) * real m"
      by blast
  qed
  have B: "\<forall>k<length tensor. (\<Sum>i<length slices. slices ! i ! k * 2 ^ (nat cell_bit * i)) = q (tensor ! k)"
  proof (intro allI impI)
    fix k assume k: "k < length tensor"
    let ?x = "tensor ! k"
    from k have "?x \<in> set tensor" by simp
    from entry [OF this] obtain M :: nat where
      M: "M < 2 ^ (c * n)" "\<bar>q ?x\<bar> = real M"
         "\<forall>i<n. E i ?x = sgn (q ?x) * real (M div 2 ^ (c * i) mod 2 ^ c)" by blast
    have "(\<Sum>i<length slices. slices ! i ! k * 2 ^ (nat cell_bit * i))
        = (\<Sum>i<n. sgn (q ?x) * (real (M div 2 ^ (c * i) mod 2 ^ c) * 2 ^ (c * i)))"
      unfolding len c_def [symmetric]
      by (rule sum.cong [OF refl]) (use M(3) nth k in simp)
    also have "\<dots> = sgn (q ?x) * (\<Sum>i<n. real (M div 2 ^ (c * i) mod 2 ^ c) * 2 ^ (c * i))"
      by (simp add: sum_distrib_left)
    also have "\<dots> = sgn (q ?x) * \<bar>q ?x\<bar>" unfolding digits_sum [OF M(1)] M(2) ..
    also have "\<dots> = q ?x" by (simp add: sgn_mult_abs)
    finally show "(\<Sum>i<length slices. slices ! i ! k * 2 ^ (nat cell_bit * i)) = q ?x" .
  qed
  show ?thesis using ret len A B unfolding n_def by blast
qed

theorem split_by_bit_digits_witness:
  "1 \<le> (2::int) \<and> (1::real) \<noteq> 0
   \<and> \<bar>torch_clamp (torch_round (100 / 1)) (- get_thres 8) (get_thres 8)\<bar> \<le> get_thres 8
   \<and> \<bar>torch_clamp (torch_round (- 37 / 1)) (- get_thres 8) (get_thres 8)\<bar> \<le> get_thres 8
   \<and> (\<exists>slices. split_by_bit [100, - 37] (Some 1) 8 2 = Returns slices \<and> length slices = 4
         \<and> (\<Sum>i<length slices. slices ! i ! 0 * 2 ^ (2 * i)) = 100
         \<and> (\<Sum>i<length slices. slices ! i ! 1 * 2 ^ (2 * i)) = - 37)"
proof -
  have h1: "1 \<le> (2::int)" and h2: "(1::real) \<noteq> 0" by simp_all
  have q0: "torch_clamp (torch_round (100 / 1)) (- get_thres 8) (get_thres 8) = 100"
    using torch_round_of_int [of 100] by (simp add: torch_clamp_def get_thres_def)
  have q1: "torch_clamp (torch_round (- 37 / 1)) (- get_thres 8) (get_thres 8) = - 37"
    using torch_round_of_int [of "- 37"] by (simp add: torch_clamp_def get_thres_def)
  have T: "get_thres 8 = 127" by (simp add: get_thres_def)
  have h3: "\<forall>x \<in> set [100, - 37].
      \<bar>torch_clamp (torch_round (x / 1)) (- get_thres 8) (get_thres 8)\<bar> \<le> get_thres 8"
    using q0 q1 by (simp add: T)
  have c: "nat \<lceil>real_of_int (8 - 1) / real_of_int 2\<rceil> = 4" by simp
  from split_by_bit_digits [OF h1 h2 h3] obtain slices where
    s: "split_by_bit [100, - 37] (Some 1) 8 2 = Returns slices"
       "length slices = 4"
       "\<forall>k<length [100, - 37 :: real]. (\<Sum>i<length slices. slices ! i ! k * 2 ^ (nat 2 * i))
            = torch_clamp (torch_round ([100, - 37] ! k / 1)) (- get_thres 8) (get_thres 8)"
    unfolding c by blast
  from s(3) have "(\<Sum>i<length slices. slices ! i ! 0 * 2 ^ (2 * i)) = 100" using q0 by simp
  moreover from s(3) have "(\<Sum>i<length slices. slices ! i ! 1 * 2 ^ (2 * i)) = - 37" using q1 by simp
  ultimately show ?thesis using h1 h2 q0 q1 s(1,2) by (simp add: T)
qed

subsection \<open>Quantization levels\<close>

lemma get_thres_ge1: "2 \<le> b \<Longrightarrow> 1 \<le> get_thres b"
proof -
  assume b: "2 \<le> b"
  then have t: "get_thres b = of_int (2 ^ nat (b - 1) - 1)" by (intro get_thres_nat) simp
  have "(2::int) ^ 1 \<le> 2 ^ nat (b - 1)" using b by (intro power_increasing) simp_all
  then have "(1::int) \<le> 2 ^ nat (b - 1) - 1" by simp
  then have "real_of_int 1 \<le> real_of_int (2 ^ nat (b - 1) - 1)" by (simp only: of_int_le_iff)
  then show ?thesis unfolding t by simp
qed

lemma get_thres_one [simp]: "get_thres 1 = 0"
  by (simp add: get_thres_def)

lemma get_thres_eq_0_iff: "get_thres b = 0 \<longleftrightarrow> b = 1"
proof
  assume z: "get_thres b = 0"
  show "b = 1"
  proof (rule ccontr)
    assume "b \<noteq> 1"
    then consider "b \<le> 0" | "2 \<le> b" by linarith
    then show False
      using z get_thres_neg [of b] get_thres_ge1 [of b] by cases simp_all
  qed
qed simp

text \<open>
  C3 (amended). For every input array, every bit width from 2 on and every scale estimate that
  is a non-zero number, the quantize operation returns
  \<open>clamp (round (array / (scale / threshold))) (- threshold) threshold * (scale / threshold)\<close>
  with \<open>threshold = 2 ^ (bit_width - 1) - 1\<close> and writes \<open>(bit_width, scale / threshold)\<close> into
  the row. With bit width 1 (threshold 0) or a zero scale it raises a division-by-zero error
  and leaves the row as it was.
\<close>

theorem Quantize_levels:
  fixes inputs :: tensor and quantize_cfg :: quantize_cfg
  defines "thres \<equiv> get_thres (cfg_bit quantize_cfg)"
  shows "(2 \<le> cfg_bit quantize_cfg \<and> get_scale inputs quantize_cfg last_bit_scale = Returns (Some scale)
            \<and> scale \<noteq> 0
          \<longrightarrow> Quantize inputs quantize_cfg last_bit_scale =
                ((cfg_bit quantize_cfg, Some (scale / thres)),
                 Returns (map (\<lambda>x. torch_clamp (torch_round (x / (scale / thres))) (- thres) thres
                                     * (scale / thres)) inputs)))
       \<and> (get_scale inputs quantize_cfg last_bit_scale = Returns scale_opt
            \<and> (cfg_bit quantize_cfg = 1 \<or> scale_opt = Some 0)
          \<longrightarrow> Quantize inputs quantize_cfg last_bit_scale = (last_bit_scale, Raises ZeroDivisionError))"
proof (intro conjI impI)
  assume a: "2 \<le> cfg_bit quantize_cfg \<and> get_scale inputs quantize_cfg last_bit_scale = Returns (Some scale)
            \<and> scale \<noteq> 0"
  then have t: "thres \<noteq> 0" unfolding thres_def using get_thres_ge1 [of "cfg_bit quantize_cfg"] by simp
  have "x / (thres / scale) = x * (scale / thres)" for x by simp
  then show "Quantize inputs quantize_cfg last_bit_scale =
                ((cfg_bit quantize_cfg, Some (scale / thres)),
                 Returns (map (\<lambda>x. torch_clamp (torch_round (x / (scale / thres))) (- thres) thres
                                     * (scale / thres)) inputs))"
    using a t by (simp add: Quantize_def Let_def thres_def [symmetric] comp_def)
next
  assume a: "get_scale inputs quantize_cfg last_bit_scale = Returns scale_opt
            \<and> (cfg_bit quantize_cfg = 1 \<or> scale_opt = Some 0)"
  then show "Quantize inputs quantize_cfg last_bit_scale = (last_bit_scale, Raises ZeroDivisionError)"
    by (auto simp: Quantize_def Let_def)
qed

text \<open>
  The claim as stated, for every bit width from 1 on and every scale, fails: a one-bit
  quantization and the quantization of an all-zero weight tensor raise and write nothing.
\<close>

theorem Quantize_one_bit_counterexample:
  "Quantize [1] \<lparr>mode = ''weight'', phase = None, cfg_bit = 1\<rparr> (1, Some (- 1))
     = ((1, Some (- 1)), Raises ZeroDivisionError)
   \<and> Quantize [0, 0] \<lparr>mode = ''weight'', phase = None, cfg_bit = 8\<rparr> (8, Some (- 1))
     = ((8, Some (- 1)), Raises ZeroDivisionError)"
  by (simp add: Quantize_def get_scale_def Let_def get_thres_def)

theorem Quantize_levels_witness:
  "Quantize [1, - 2, 1 / 3] \<lparr>mode = ''weight'', phase = None, cfg_bit = 3\<rparr> (3, Some (- 1))
     = ((3, Some (2 / 3)), Returns [4 / 3, - 2, 0])
   \<and> Quantize [1] \<lparr>mode = ''weight'', phase = None, cfg_bit = 1\<rparr> (1, Some (- 1))
     = ((1, Some (- 1)), Raises ZeroDivisionError)"
proof -
  let ?cfg = "\<lparr>mode = ''weight'', phase = None, cfg_bit = 3\<rparr>"
  let ?cfg1 = "\<lparr>mode = ''weight'', phase = None, cfg_bit = 1\<rparr>"
  have g: "get_scale [1, - 2, 1 / 3] ?cfg (3, Some (- 1)) = Returns (Some 2)"
    by (simp add: get_scale_def)
  have g1: "get_scale [1] ?cfg1 (1, Some (- 1)) = Returns (Some 1)"
    by (simp add: get_scale_def)
  have a: "Quantize [1, - 2, 1 / 3] ?cfg (3, Some (- 1)) = ((3, Some (2 / 3)), Returns [4 / 3, - 2, 0])"
    using Quantize_levels [of ?cfg "[1, - 2, 1 / 3]" "(3, Some (- 1))" 2 "Some 2"] g
    by (simp add: get_thres_def torch_clamp_def torch_round_def Let_def)
  have b: "Quantize [1] ?cfg1 (1, Some (- 1)) = ((1, Some (- 1)), Raises ZeroDivisionError)"
    using Quantize_levels [of ?cfg1 "[1]" "(1, Some (- 1))" 1 "Some 1"] g1 by simp
  show ?thesis using a b by simp
qed


subsection \<open>Scale smoothing\<close>

text \<open>
  C4 (amended). In activation mode with phase train, on an array of at least two entries and
  a row holding a step size, let \<open>r_scale\<close> be the step size times the threshold of the row's
  bit width and \<open>t_scale = 3 * stddev array + \<bar>mean array\<bar>\<close>. If \<open>r_scale \<le> 0\<close> the estimated
  scale is \<open>t_scale\<close>; otherwise it is \<open>0.707 * r_scale + 0.293 * t_scale\<close>, which lies between
  \<open>t_scale\<close> and \<open>r_scale\<close>, strictly so whenever the two differ.
\<close>

theorem get_scale_train_smoothing:
  fixes inputs :: tensor and quantize_cfg :: quantize_cfg and bit_width :: int and step :: real
  defines "r_scale \<equiv> step * get_thres bit_width"
  defines "mu \<equiv> sum_list inputs / real (length inputs)"
  defines "sd \<equiv> sqrt (sum_list (map (\<lambda>x. (x - mu)\<^sup>2) inputs) / real (length inputs - 1))"
  defines "t_scale \<equiv> 3 * sd + \<bar>mu\<bar>"
  assumes act: "mode quantize_cfg = ''activation''" and train: "phase quantize_cfg = Some ''train''"
    and two: "2 \<le> length inputs"
  shows "(r_scale \<le> 0 \<longrightarrow> get_scale inputs quantize_cfg (bit_width, Some step) = Returns (Some t_scale))
       \<and> (0 < r_scale \<longrightarrow>
            (\<exists>scale. get_scale inputs quantize_cfg (bit_width, Some step) = Returns (Some scale)
               \<and> scale = 707 / 1000 * r_scale + 293 / 1000 * t_scale
               \<and> min t_scale r_scale \<le> scale \<and> scale \<le> max t_scale r_scale
               \<and> (t_scale \<noteq> r_scale \<longrightarrow> min t_scale r_scale < scale \<and> scale < max t_scale r_scale)))"
proof -
  have r: "r_scale_of (bit_width, Some step) = Some r_scale"
    by (simp add: r_scale_of_def r_scale_def)
  have t: "t_scale_of inputs = Some t_scale"
    using two by (auto simp: t_scale_of_def torch_std_def torch_mean_def Let_def t_scale_def sd_def mu_def)
  have g: "get_scale inputs quantize_cfg (bit_width, Some step) =
      (if r_scale \<le> 0 then Returns (Some t_scale)
       else Returns (Some (707 / 1000 * r_scale + 293 / 1000 * t_scale)))"
    using act train by (simp add: get_scale_def r t Let_def RATIO_def)
  show ?thesis unfolding g by (auto simp: min_def max_def)
qed

text \<open>
  When the two estimates coincide the smoothed scale equals both, so it is not strictly
  between them.
\<close>

theorem get_scale_train_counterexample:
  "get_scale [1, 1] \<lparr>mode = ''activation'', phase = Some ''train'', cfg_bit = 8\<rparr> (2, Some 1) = Returns (Some 1)
   \<and> r_scale_of (2, Some 1) = Some 1 \<and> t_scale_of [1, 1] = Some 1
   \<and> \<not> (min 1 1 < (1::real) \<and> (1::real) < max 1 1)"
  by (simp add: get_scale_def r_scale_of_def t_scale_of_def torch_std_def torch_mean_def
      get_thres_def RATIO_def Let_def)

theorem get_scale_train_smoothing_witness:
  "get_scale [1, 3] \<lparr>mode = ''activation'', phase = Some ''train'', cfg_bit = 8\<rparr> (2, Some 1)
      = Returns (Some (707 / 1000 + 293 / 1000 * (3 * sqrt 2 + 2)))
   \<and> get_scale [1, 3] \<lparr>mode = ''activation'', phase = Some ''train'', cfg_bit = 8\<rparr> (2, Some (- 1))
      = Returns (Some (3 * sqrt 2 + 2))"
proof -
  let ?cfg = "\<lparr>mode = ''activation'', phase = Some ''train'', cfg_bit = 8\<rparr>"
  have h: "mode ?cfg = ''activation''" "phase ?cfg = Some ''train''" "2 \<le> length [1, 3 :: real]"
    by simp_all
  have a: "get_scale [1, 3] ?cfg (2, Some 1) = Returns (Some (707 / 1000 + 293 / 1000 * (3 * sqrt 2 + 2)))"
    using get_scale_train_smoothing [OF h, of 1 2] by (simp add: get_thres_def power2_eq_square)
  have b: "get_scale [1, 3] ?cfg (2, Some (- 1)) = Returns (Some (3 * sqrt 2 + 2))"
    using get_scale_train_smoothing [OF h, of "- 1" 2] by (simp add: get_thres_def power2_eq_square)
  show ?thesis using a b by simp
qed


subsection \<open>Quantizing twice\<close>

lemma torch_clamp_neg_thres: "b \<le> 0 \<Longrightarrow> torch_clamp x (- get_thres b) (get_thres b) = get_thres b"
  using get_thres_neg [of b] by (simp add: torch_clamp_def min_def max_def)

lemma clamp_round_idem:
  "torch_clamp (torch_round (torch_clamp (torch_round z) (- get_thres b) (get_thres b)))
      (- get_thres b) (get_thres b)
   = torch_clamp (torch_round z) (- get_thres b) (get_thres b)"
proof (cases "1 \<le> b")
  case True
  obtain r where r: "torch_round z = of_int r" using torch_round_in_Ints [of z] by (auto elim: Ints_cases)
  let ?K = "2 ^ nat (b - 1) - 1 :: int"
  have c: "torch_clamp (of_int k) (- get_thres b) (get_thres b) = of_int (min (max k (- ?K)) ?K)" for k
    unfolding get_thres_nat [OF True] torch_clamp_def by (simp add: of_int_min of_int_max)
  show ?thesis unfolding r c torch_round_of_int by (simp add: min_def max_def)
next
  case False
  then have "b \<le> 0" by simp
  then show ?thesis by (simp add: torch_clamp_neg_thres)
qed

lemma Quantize_Returns_cases:
  assumes "Quantize inputs quantize_cfg last_bit_scale = (committed, Returns output)"
  obtains scale where
    "get_scale inputs quantize_cfg last_bit_scale = Returns (Some scale)"
    "scale \<noteq> 0" "get_thres (cfg_bit quantize_cfg) \<noteq> 0"
    "committed = (cfg_bit quantize_cfg, Some (scale / get_thres (cfg_bit quantize_cfg)))"
    "output = map (\<lambda>x. torch_clamp (torch_round (x / (scale / get_thres (cfg_bit quantize_cfg))))
                            (- get_thres (cfg_bit quantize_cfg)) (get_thres (cfg_bit quantize_cfg))
                         / (get_thres (cfg_bit quantize_cfg) / scale)) inputs"
  using assms
  by (auto simp: Quantize_def Let_def comp_def split: outcome.splits option.splits if_splits)

lemma Quantize_of_scale:
  assumes "get_scale inputs quantize_cfg last_bit_scale = Returns (Some scale)"
    and "scale \<noteq> 0" and "get_thres (cfg_bit quantize_cfg) \<noteq> 0"
  shows "Quantize inputs quantize_cfg last_bit_scale =
     ((cfg_bit quantize_cfg, Some (scale / get_thres (cfg_bit quantize_cfg))),
      Returns (map (\<lambda>x. torch_clamp (torch_round (x / (scale / get_thres (cfg_bit quantize_cfg))))
                            (- get_thres (cfg_bit quantize_cfg)) (get_thres (cfg_bit quantize_cfg))
                         / (get_thres (cfg_bit quantize_cfg) / scale)) inputs))"
  using assms by (simp add: Quantize_def Let_def comp_def)

lemma Quantize_same_scale:
  assumes first: "Quantize inputs quantize_cfg last_bit_scale = (committed, Returns output)"
    and bit: "cfg_bit cfg2 = cfg_bit quantize_cfg"
    and same: "get_scale output cfg2 committed = get_scale inputs quantize_cfg last_bit_scale"
  shows "Quantize output cfg2 committed = (committed, Returns output)"
proof -
  let ?T = "get_thres (cfg_bit quantize_cfg)"
  from first obtain scale where
    g: "get_scale inputs quantize_cfg last_bit_scale = Returns (Some scale)"
    and s: "scale \<noteq> 0" and T: "?T \<noteq> 0"
    and c: "committed = (cfg_bit quantize_cfg, Some (scale / ?T))"
    and out: "output = map (\<lambda>x. torch_clamp (torch_round (x / (scale / ?T))) (- ?T) ?T / (?T / scale)) inputs"
    by (rule Quantize_Returns_cases)
  have inv: "(l / (?T / scale)) / (scale / ?T) = l" for l using s T by simp
  have "map (\<lambda>y. torch_clamp (torch_round (y / (scale / ?T))) (- ?T) ?T / (?T / scale)) output = output"
    unfolding out by (simp add: comp_def inv clamp_round_idem)
  moreover have "get_scale output cfg2 committed = Returns (Some scale)"
    unfolding same by (rule g)
  then have "Quantize output cfg2 committed =
     ((cfg_bit quantize_cfg, Some (scale / ?T)),
      Returns (map (\<lambda>y. torch_clamp (torch_round (y / (scale / ?T))) (- ?T) ?T / (?T / scale)) output))"
    using s T Quantize_of_scale [of "output" cfg2 committed scale] unfolding bit by blast
  ultimately show ?thesis unfolding c by simp
qed


lemma abs_clamp_le: "\<bar>torch_clamp y (- T) T\<bar> \<le> \<bar>T\<bar>"
  unfolding torch_clamp_def by linarith

lemma abs_clamp_thres:
  assumes "\<bar>y\<bar> = \<bar>get_thres b\<bar>"
  shows "\<bar>torch_clamp (torch_round y) (- get_thres b) (get_thres b)\<bar> = \<bar>get_thres b\<bar>"
proof (cases "1 \<le> b")
  case True
  have T: "get_thres b = of_int (2 ^ nat (b - 1) - 1)" by (rule get_thres_nat [OF True])
  then have "0 \<le> get_thres b" by simp
  with assms consider "y = get_thres b" | "y = - get_thres b" by linarith
  then show ?thesis
  proof cases
    case 1
    then have "y = of_int (2 ^ nat (b - 1) - 1)" unfolding T by simp
    then have "torch_round y = y" by (simp only: torch_round_of_int)
    then show ?thesis using \<open>0 \<le> get_thres b\<close> 1 by (simp add: torch_clamp_def)
  next
    case 2
    then have "y = of_int (- (2 ^ nat (b - 1) - 1))" unfolding T by simp
    then have "torch_round y = y" by (simp only: torch_round_of_int)
    then show ?thesis using \<open>0 \<le> get_thres b\<close> 2 by (simp add: torch_clamp_def)
  qed
next
  case False
  then show ?thesis by (simp add: torch_clamp_neg_thres)
qed

lemma weight_scale_preserved:
  assumes first: "Quantize inputs quantize_cfg last_bit_scale = (committed, Returns output)"
    and w: "mode quantize_cfg = ''weight''"
  shows "get_scale output quantize_cfg committed = get_scale inputs quantize_cfg last_bit_scale"
proof -
  let ?T = "get_thres (cfg_bit quantize_cfg)"
  from first obtain scale where
    g: "get_scale inputs quantize_cfg last_bit_scale = Returns (Some scale)"
    and s: "scale \<noteq> 0" and T: "?T \<noteq> 0"
    and out: "output = map (\<lambda>x. torch_clamp (torch_round (x / (scale / ?T))) (- ?T) ?T / (?T / scale)) inputs"
    by (rule Quantize_Returns_cases)
  from g w have ne: "inputs \<noteq> []" and sc: "scale = Max (set (map abs inputs))"
    by (auto simp: get_scale_def split: if_splits)
  let ?f = "\<lambda>x. torch_clamp (torch_round (x / (scale / ?T))) (- ?T) ?T / (?T / scale)"
  have "scale \<in> set (map abs inputs)" unfolding sc using ne by (intro Max_in) simp_all
  then obtain x where x: "x \<in> set inputs" "\<bar>x\<bar> = scale" by auto
  then have pos: "0 < scale" using s by linarith
  have le: "\<bar>?f y\<bar> \<le> scale" for y
  proof -
    have "\<bar>?f y\<bar> = \<bar>torch_clamp (torch_round (y / (scale / ?T))) (- ?T) ?T\<bar> * scale / \<bar>?T\<bar>"
      using pos by (simp add: abs_mult)
    also have "\<dots> \<le> \<bar>?T\<bar> * scale / \<bar>?T\<bar>"
      using pos T by (intro divide_right_mono mult_right_mono abs_clamp_le) simp_all
    also have "\<dots> = scale" using T by simp
    finally show ?thesis .
  qed
  have "\<bar>x / (scale / ?T)\<bar> = \<bar>?T\<bar>" using x(2) pos by (simp add: abs_mult)
  then have "\<bar>torch_clamp (torch_round (x / (scale / ?T))) (- ?T) ?T\<bar> = \<bar>?T\<bar>"
    by (rule abs_clamp_thres)
  then have "\<bar>?f x\<bar> = \<bar>?T\<bar> * scale / \<bar>?T\<bar>" using pos by (simp add: abs_mult)
  then have eq: "\<bar>?f x\<bar> = scale" using T by simp
  have "Max (set (map abs output)) = scale"
  proof (rule Max_eqI)
    show "finite (set (map abs output))" by simp
    show "y \<le> scale" if "y \<in> set (map abs output)" for y
      using that le unfolding out by auto
    show "scale \<in> set (map abs output)"
      unfolding out using x(1) eq by (auto simp: image_iff intro!: bexI [of _ x])
  qed
  moreover have "output \<noteq> []" unfolding out using ne by simp
  ultimately show ?thesis unfolding g using w by (simp add: get_scale_def)
qed

lemma test_scale_preserved:
  assumes first: "Quantize inputs quantize_cfg last_bit_scale = (committed, Returns output)"
  shows "get_scale output' \<lparr>mode = ''activation'', phase = Some ''test'', cfg_bit = cfg_bit quantize_cfg\<rparr> committed
         = get_scale inputs quantize_cfg last_bit_scale"
proof -
  let ?T = "get_thres (cfg_bit quantize_cfg)"
  from first obtain scale where
    g: "get_scale inputs quantize_cfg last_bit_scale = Returns (Some scale)"
    and T: "?T \<noteq> 0"
    and c: "committed = (cfg_bit quantize_cfg, Some (scale / ?T))"
    by (rule Quantize_Returns_cases)
  show ?thesis unfolding g c using T by (simp add: get_scale_def r_scale_of_def)
qed

text \<open>
  C6. Let a first quantization return an array and commit a row. A second quantization of
  that array against the committed row, at the same bit width, returns the same array and
  commits the same row whenever it estimates the same scale; the test phase of the
  activation mode, which takes its scale from the committed row, always does, and so does the
  weight mode after a quantization in weight mode.
\<close>

theorem Quantize_idempotent:
  assumes first: "Quantize inputs quantize_cfg last_bit_scale = (committed, Returns output)"
  shows "(cfg_bit cfg2 = cfg_bit quantize_cfg
            \<and> get_scale output cfg2 committed = get_scale inputs quantize_cfg last_bit_scale
          \<longrightarrow> Quantize output cfg2 committed = (committed, Returns output))
       \<and> Quantize output \<lparr>mode = ''activation'', phase = Some ''test'', cfg_bit = cfg_bit quantize_cfg\<rparr>
            committed = (committed, Returns output)
       \<and> (mode quantize_cfg = ''weight''
          \<longrightarrow> Quantize output quantize_cfg committed = (committed, Returns output))"
proof (intro conjI impI)
  assume "cfg_bit cfg2 = cfg_bit quantize_cfg
            \<and> get_scale output cfg2 committed = get_scale inputs quantize_cfg last_bit_scale"
  then show "Quantize output cfg2 committed = (committed, Returns output)"
    using Quantize_same_scale [OF first] by blast
next
  show "Quantize output \<lparr>mode = ''activation'', phase = Some ''test'', cfg_bit = cfg_bit quantize_cfg\<rparr>
            committed = (committed, Returns output)"
    by (rule Quantize_same_scale [OF first]) (simp_all add: test_scale_preserved [OF first])
next
  assume "mode quantize_cfg = ''weight''"
  then show "Quantize output quantize_cfg committed = (committed, Returns output)"
    by (intro Quantize_same_scale [OF first] weight_scale_preserved [OF first]) simp_all
qed

theorem Quantize_idempotent_witness:
  "Quantize [1, - 2, 1 / 3] \<lparr>mode = ''weight'', phase = None, cfg_bit = 3\<rparr> (3, Some (- 1))
     = ((3, Some (2 / 3)), Returns [4 / 3, - 2, 0])
   \<and> Quantize [4 / 3, - 2, 0] \<lparr>mode = ''weight'', phase = None, cfg_bit = 3\<rparr> (3, Some (2 / 3))
     = ((3, Some (2 / 3)), Returns [4 / 3, - 2, 0])
   \<and> Quantize [4 / 3, - 2, 0] \<lparr>mode = ''activation'', phase = Some ''test'', cfg_bit = 3\<rparr> (3, Some (2 / 3))
     = ((3, Some (2 / 3)), Returns [4 / 3, - 2, 0])"
proof -
  let ?cfg = "\<lparr>mode = ''weight'', phase = None, cfg_bit = 3\<rparr>"
  have first: "Quantize [1, - 2, 1 / 3] ?cfg (3, Some (- 1)) = ((3, Some (2 / 3)), Returns [4 / 3, - 2, 0])"
    by (simp add: Quantize_def get_scale_def get_thres_def torch_clamp_def torch_round_def Let_def)
  show ?thesis using first Quantize_idempotent [OF first, of ?cfg] by simp
qed

subsection \<open>Partial sums of the hardware-accurate inference\<close>

lemma obind_Returns_iff:
  "obind m f = Returns y \<longleftrightarrow> (\<exists>x. m = Returns x \<and> f x = Returns y)"
  by (cases m) simp_all

lemma omap_Returns:
  assumes "omap f xs = Returns ys"
  shows "length ys = length xs \<and> (\<forall>k<length xs. f (xs ! k) = Returns (ys ! k))"
  using assms
proof (induction xs arbitrary: ys)
  case Nil
  then show ?case by simp
next
  case (Cons x xs)
  from Cons.prems obtain y ys' where y: "f x = Returns y" and ys': "omap f xs = Returns ys'"
    and ys: "ys = y # ys'"
    by (auto simp: obind_Returns_iff)
  from Cons.IH [OF ys'] have IH: "length ys' = length xs" "\<forall>k<length xs. f (xs ! k) = Returns (ys' ! k)"
    by simp_all
  show ?case unfolding ys using y IH by (auto simp: nth_Cons')
qed

lemma concat_uniform:
  assumes "\<forall>k<length yss. length (yss ! k) = m"
  shows "length (concat yss) = length yss * m
       \<and> (\<forall>k<length yss. \<forall>j<m. concat yss ! (k * m + j) = yss ! k ! j)"
  using assms
proof (induction yss)
  case Nil
  then show ?case by simp
next
  case (Cons ys yss)
  have l: "length ys = m" using Cons.prems by (auto dest: spec [of _ 0])
  have "\<forall>k<length yss. length (yss ! k) = m"
    using Cons.prems by (auto dest: spec [of _ "Suc k" for k])
  from Cons.IH [OF this] have IH: "length (concat yss) = length yss * m"
    "\<forall>k<length yss. \<forall>j<m. concat yss ! (k * m + j) = yss ! k ! j" by simp_all
  have "concat (ys # yss) ! (k * m + j) = (ys # yss) ! k ! j" if "k < length (ys # yss)" "j < m" for k j
  proof (cases k)
    case 0
    then show ?thesis using that l by (simp add: nth_append)
  next
    case (Suc k')
    then have "concat (ys # yss) ! (k * m + j) = concat yss ! (k' * m + j)"
      using l by (simp add: nth_append)
    then show ?thesis using IH(2) that Suc by simp
  qed
  then show ?case using IH(1) l by simp
qed

lemma py_nth_Returns: "py_nth xs i = Returns x \<Longrightarrow> 0 \<le> i \<and> nat i < length xs \<and> x = xs ! nat i"
  by (auto simp: py_nth_def split: if_splits)

lemma digit_pair_Returns:
  assumes "digit_pair self mul_scale output_scale transfer_scale output_thres input_cycle weight_cycle
       input_activation_bit_list module_weight_bit_list i j = Returns out"
  shows "\<exists>raw. partial_func self (input_activation_bit_list ! nat i) (module_weight_bit_list ! nat j) = Returns raw
     \<and> output_scale \<noteq> 0
     \<and> out = map (\<lambda>x. torch_clamp (torch_round (x * (mul_scale / output_scale * transfer_scale)))
                           (- output_thres) output_thres
                     / (transfer_scale * 2 powi ((input_cycle - 1 - i) * dac_bit (hardware (layer_ini self))
                           + (weight_cycle - 1 - j) * cell_bit (hardware (layer_ini self))))) raw"
proof -
  from assms obtain a w raw ratio where
    a: "py_nth input_activation_bit_list i = Returns a"
    and w: "py_nth module_weight_bit_list j = Returns w"
    and raw: "partial_func self a w = Returns raw"
    and ratio: "py_div mul_scale output_scale = Returns ratio"
    and out: "out = map (\<lambda>x. x / (transfer_scale * 2 powi ((input_cycle - 1 - i) * dac_bit (hardware (layer_ini self))
                           + (weight_cycle - 1 - j) * cell_bit (hardware (layer_ini self)))))
                (map (\<lambda>x. torch_clamp (torch_round x) (- output_thres) output_thres)
                  (map (\<lambda>x. x * (ratio * transfer_scale)) raw))"
    unfolding digit_pair_def obind_Returns_iff Let_def by auto
  from ratio have os: "output_scale \<noteq> 0" and r: "ratio = mul_scale / output_scale"
    by (auto simp: py_div_def split: if_splits)
  from a w have "a = input_activation_bit_list ! nat i" "w = module_weight_bit_list ! nat j"
    by (auto dest: py_nth_Returns)
  then show ?thesis using raw os out r by (simp add: comp_def)
qed


lemma finite_float_Returns: "finite_float f = Returns x \<longleftrightarrow> f = Some x"
  by (cases f) auto

lemma length_py_range [simp]: "length (py_range n) = nat n"
  by (simp add: py_range_def)

lemma nth_py_range [simp]: "k < nat n \<Longrightarrow> py_range n ! k = int k"
  by (simp add: py_range_def)

lemma digit_pairs_Returns:
  assumes "omap (\<lambda>i. omap (\<lambda>j. digit_pair self ms os ts ot input_cycle weight_cycle digits wdigits i j)
                         (py_range weight_cycle)) (py_range input_cycle) = Returns outs"
  shows "length (concat outs) = nat input_cycle * nat weight_cycle
    \<and> (\<forall>i<nat input_cycle. \<forall>j<nat weight_cycle.
          digit_pair self ms os ts ot input_cycle weight_cycle digits wdigits (int i) (int j)
            = Returns (concat outs ! (i * nat weight_cycle + j)))"
proof -
  from omap_Returns [OF assms] have len: "length outs = nat input_cycle"
    and rows: "\<forall>i<nat input_cycle.
        omap (\<lambda>j. digit_pair self ms os ts ot input_cycle weight_cycle digits wdigits (int i) j)
             (py_range weight_cycle) = Returns (outs ! i)"
    by simp_all
  have row: "length (outs ! i) = nat weight_cycle
      \<and> (\<forall>j<nat weight_cycle. digit_pair self ms os ts ot input_cycle weight_cycle digits wdigits (int i) (int j)
            = Returns (outs ! i ! j))" if "i < nat input_cycle" for i
    using omap_Returns [OF rows [rule_format, OF that]] by simp
  then have "\<forall>k<length outs. length (outs ! k) = nat weight_cycle" using len by simp
  from concat_uniform [OF this] have c: "length (concat outs) = length outs * nat weight_cycle"
    "\<forall>k<length outs. \<forall>j<nat weight_cycle. concat outs ! (k * nat weight_cycle + j) = outs ! k ! j"
    by simp_all
  show ?thesis using c row len by simp
qed

text \<open>
  C2. Whenever the accumulation loop of the hardware-accurate inference completes, the buffer
  holds finite step sizes, \<open>output_list\<close> has one tensor for every partition and digit pair, in
  the order of the loops, and the tensor of partition \<open>l\<close> and digit pair \<open>(i, j)\<close> is the raw
  partial sum \<open>partial_func (input digit i) (weight digit j)\<close> with every entry multiplied by
  \<open>mul_scale / output_scale * transfer_scale\<close>, rounded, clamped to the threshold of \<open>adc_bit\<close>
  and divided by \<open>transfer_scale * 2 ^ scale_point\<close>, as \<open>rescale_spec\<close> words it, with
  \<open>mul_scale = weight_step * input_step * 2 ^ ((weight_cycle - 1) * cell_bit) *
  2 ^ ((input_cycle - 1) * dac_bit)\<close>, \<open>transfer_scale = 2 ^ (point_shift + adc_bit - 1)\<close>,
  \<open>output_scale = output_step * threshold output_bits\<close> and
  \<open>scale_point = (input_cycle - 1 - i) * dac_bit + (weight_cycle - 1 - j) * cell_bit\<close>.
\<close>

theorem partial_sums_rescaled:
  assumes run: "partial_sum_list self bsl inputs quantize_weight_bit_list = Returns output_list"
  shows "\<exists>input_list weight_cycle input_cycle weight_step input_step output_step.
      torch_split self inputs (input_split_num self) = Returns input_list
    \<and> get_cycle (fst (weight_row bsl)) (cell_bit (hardware (layer_ini self))) = Returns weight_cycle
    \<and> get_cycle (fst (input_row bsl)) (dac_bit (hardware (layer_ini self))) = Returns input_cycle
    \<and> snd (weight_row bsl) = Some weight_step \<and> snd (input_row bsl) = Some input_step
    \<and> snd (output_row bsl) = Some output_step
    \<and> length output_list = length quantize_weight_bit_list * (nat input_cycle * nat weight_cycle)
    \<and> (\<forall>l<length quantize_weight_bit_list.
          \<exists>digits. split_by_bit (input_list ! l) (Some input_step) (fst (input_row bsl))
                      (dac_bit (hardware (layer_ini self))) = Returns digits
            \<and> (\<forall>i<nat input_cycle. \<forall>j<nat weight_cycle.
                  \<exists>raw. partial_func self (digits ! i) (quantize_weight_bit_list ! l ! j) = Returns raw
                    \<and> output_list ! (l * (nat input_cycle * nat weight_cycle) + (i * nat weight_cycle + j))
                        = map (rescale_spec (hardware (layer_ini self)) weight_step input_step output_step
                                 (fst (output_row bsl)) weight_cycle input_cycle (int i) (int j)) raw))"
proof -
  let ?hw = "hardware (layer_ini self)"
  let ?n = "length quantize_weight_bit_list"
  from run have nt: "\<not> training self"
    by (auto simp: partial_sum_list_def split: if_splits)
  from run nt obtain input_list weight_cycle input_cycle output_step weight_step input_step outs where
    sp: "torch_split self inputs (input_split_num self) = Returns input_list"
    and wc: "get_cycle (fst (weight_row bsl)) (cell_bit ?hw) = Returns weight_cycle"
    and ic: "get_cycle (fst (input_row bsl)) (dac_bit ?hw) = Returns input_cycle"
    and ostep: "snd (output_row bsl) = Some output_step"
    and wstep: "snd (weight_row bsl) = Some weight_step"
    and istep: "snd (input_row bsl) = Some input_step"
    and loop: "omap (\<lambda>(layer_num, module_weight_bit_list).
                 obind (py_nth input_list (int layer_num)) (\<lambda>input_part.
                 obind (split_by_bit input_part (Some input_step) (fst (input_row bsl)) (dac_bit ?hw))
                   (\<lambda>input_activation_bit_list.
                 obind (omap (\<lambda>i.
                          omap (\<lambda>j. digit_pair self
                                        (weight_step * input_step * 2 powi ((weight_cycle - 1) * cell_bit ?hw)
                                           * 2 powi ((input_cycle - 1) * dac_bit ?hw))
                                        (output_step * get_thres (fst (output_row bsl)))
                                        (2 powi (point_shift ?hw + adc_bit ?hw - 1))
                                        (get_thres (adc_bit ?hw))
                                        input_cycle weight_cycle
                                        input_activation_bit_list module_weight_bit_list i j)
                               (py_range weight_cycle))
                        (py_range input_cycle)) (\<lambda>outs. Returns (concat outs)))))
               (enumerate 0 quantize_weight_bit_list) = Returns outs"
    and ol: "output_list = concat outs"
    by (auto simp: partial_sum_list_def Let_def obind_Returns_iff finite_float_Returns)
  let ?ms = "weight_step * input_step * 2 powi ((weight_cycle - 1) * cell_bit ?hw)
               * 2 powi ((input_cycle - 1) * dac_bit ?hw)"
  let ?os = "output_step * get_thres (fst (output_row bsl))"
  let ?ts = "2 powi (point_shift ?hw + adc_bit ?hw - 1) :: real"
  let ?ot = "get_thres (adc_bit ?hw)"
  let ?m = "nat input_cycle * nat weight_cycle"
  from omap_Returns [OF loop] have len: "length outs = ?n"
    and body: "\<forall>l<?n.
        obind (py_nth input_list (int l)) (\<lambda>input_part.
        obind (split_by_bit input_part (Some input_step) (fst (input_row bsl)) (dac_bit ?hw))
          (\<lambda>input_activation_bit_list.
        obind (omap (\<lambda>i. omap (\<lambda>j. digit_pair self ?ms ?os ?ts ?ot input_cycle weight_cycle
                                   input_activation_bit_list (quantize_weight_bit_list ! l) i j)
                               (py_range weight_cycle))
                    (py_range input_cycle)) (\<lambda>outs. Returns (concat outs))))
        = Returns (outs ! l)"
    by (simp_all add: nth_enumerate_eq)
  have layer: "\<exists>digits. split_by_bit (input_list ! l) (Some input_step) (fst (input_row bsl)) (dac_bit ?hw)
                  = Returns digits
       \<and> length (outs ! l) = ?m
       \<and> (\<forall>i<nat input_cycle. \<forall>j<nat weight_cycle.
            digit_pair self ?ms ?os ?ts ?ot input_cycle weight_cycle digits (quantize_weight_bit_list ! l)
               (int i) (int j) = Returns (outs ! l ! (i * nat weight_cycle + j)))"
    if l: "l < ?n" for l
  proof -
    from body [rule_format, OF l] obtain input_part digits outs2 where
      p: "py_nth input_list (int l) = Returns input_part"
      and d: "split_by_bit input_part (Some input_step) (fst (input_row bsl)) (dac_bit ?hw) = Returns digits"
      and o: "omap (\<lambda>i. omap (\<lambda>j. digit_pair self ?ms ?os ?ts ?ot input_cycle weight_cycle
                                   digits (quantize_weight_bit_list ! l) i j)
                               (py_range weight_cycle))
                    (py_range input_cycle) = Returns outs2"
      and c: "outs ! l = concat outs2"
      unfolding obind_Returns_iff by auto
    from p have "input_part = input_list ! l" by (auto dest: py_nth_Returns)
    with d have "split_by_bit (input_list ! l) (Some input_step) (fst (input_row bsl)) (dac_bit ?hw)
                  = Returns digits" by simp
    then show ?thesis using digit_pairs_Returns [OF o] unfolding c by blast
  qed
  then have "\<forall>k<length outs. length (outs ! k) = ?m" unfolding len by blast
  from concat_uniform [OF this] have total: "length (concat outs) = length outs * ?m"
    and at: "\<forall>k<length outs. \<forall>j<?m. concat outs ! (k * ?m + j) = outs ! k ! j"
    by simp_all
  have pairs: "\<exists>digits. split_by_bit (input_list ! l) (Some input_step) (fst (input_row bsl)) (dac_bit ?hw)
                  = Returns digits
       \<and> (\<forall>i<nat input_cycle. \<forall>j<nat weight_cycle.
            \<exists>raw. partial_func self (digits ! i) (quantize_weight_bit_list ! l ! j) = Returns raw
              \<and> output_list ! (l * ?m + (i * nat weight_cycle + j))
                  = map (rescale_spec ?hw weight_step input_step output_step
                           (fst (output_row bsl)) weight_cycle input_cycle (int i) (int j)) raw)"
    if l: "l < ?n" for l
  proof -
    from layer [OF l] obtain digits where
      d: "split_by_bit (input_list ! l) (Some input_step) (fst (input_row bsl)) (dac_bit ?hw) = Returns digits"
      and dp: "\<forall>i<nat input_cycle. \<forall>j<nat weight_cycle.
            digit_pair self ?ms ?os ?ts ?ot input_cycle weight_cycle digits (quantize_weight_bit_list ! l)
               (int i) (int j) = Returns (outs ! l ! (i * nat weight_cycle + j))"
      by blast
    have "\<exists>raw. partial_func self (digits ! i) (quantize_weight_bit_list ! l ! j) = Returns raw
              \<and> output_list ! (l * ?m + (i * nat weight_cycle + j))
                  = map (rescale_spec ?hw weight_step input_step output_step
                           (fst (output_row bsl)) weight_cycle input_cycle (int i) (int j)) raw"
      if i: "i < nat input_cycle" and j: "j < nat weight_cycle" for i j
    proof -
      have "i * nat weight_cycle + j < ?m"
      proof -
        have "i * nat weight_cycle + j < i * nat weight_cycle + nat weight_cycle" using j by simp
        also have "\<dots> = Suc i * nat weight_cycle" by simp
        also have "\<dots> \<le> ?m" using i by (intro mult_le_mono1) simp
        finally show ?thesis .
      qed
      then have idx: "output_list ! (l * ?m + (i * nat weight_cycle + j)) = outs ! l ! (i * nat weight_cycle + j)"
        unfolding ol using at l len by simp
      from digit_pair_Returns [OF dp [rule_format, OF i j]] obtain raw where
        raw: "partial_func self (digits ! nat (int i)) (quantize_weight_bit_list ! l ! nat (int j)) = Returns raw"
        and out: "outs ! l ! (i * nat weight_cycle + j)
            = map (\<lambda>x. torch_clamp (torch_round (x * (?ms / ?os * ?ts))) (- ?ot) ?ot
                     / (?ts * 2 powi ((input_cycle - 1 - int i) * dac_bit ?hw
                           + (weight_cycle - 1 - int j) * cell_bit ?hw))) raw"
        by blast
      have "outs ! l ! (i * nat weight_cycle + j)
          = map (rescale_spec ?hw weight_step input_step output_step
                           (fst (output_row bsl)) weight_cycle input_cycle (int i) (int j)) raw"
        unfolding out rescale_spec_def Let_def ..
      with raw idx show ?thesis by simp
    qed
    with d show ?thesis by blast
  qed
  have "length output_list = ?n * ?m" unfolding ol total len ..
  with sp wc ic wstep istep ostep pairs show ?thesis by blast
qed

theorem partial_sums_rescaled_witness:
  "partial_sum_list example_fc example_buffer [1, 2] [[[1, 0], [0, - 1]]]
     = Returns [[85 / 256], [- (127 / 128)]]
   \<and> [85 / 256] = map (rescale_spec (hardware (layer_ini example_fc)) 1 1 1 3 2 1 0 0) [1]
   \<and> [- (127 / 128)] = map (rescale_spec (hardware (layer_ini example_fc)) 1 1 1 3 2 1 0 1) [- 2]"
proof -
  let ?hw = "hardware (layer_ini example_fc)"
  have run: "partial_sum_list example_fc example_buffer [1, 2] [[[1, 0], [0, - 1]]]
     = Returns [[85 / 256], [- (127 / 128)]]"
    by code_simp
  from partial_sums_rescaled [OF run]
  obtain input_list weight_cycle input_cycle weight_step input_step output_step where
    sp: "torch_split example_fc [1, 2] (input_split_num example_fc) = Returns input_list"
    and wc: "get_cycle (fst (weight_row example_buffer)) (cell_bit ?hw) = Returns weight_cycle"
    and ic: "get_cycle (fst (input_row example_buffer)) (dac_bit ?hw) = Returns input_cycle"
    and st: "snd (weight_row example_buffer) = Some weight_step"
            "snd (input_row example_buffer) = Some input_step"
            "snd (output_row example_buffer) = Some output_step"
    and pairs: "\<forall>l<length [[[1, 0], [0, - 1 :: real]]].
          \<exists>digits. split_by_bit (input_list ! l) (Some input_step) (fst (input_row example_buffer))
                      (dac_bit ?hw) = Returns digits
            \<and> (\<forall>i<nat input_cycle. \<forall>j<nat weight_cycle.
                  \<exists>raw. partial_func example_fc (digits ! i) ([[[1, 0], [0, - 1]]] ! l ! j) = Returns raw
                    \<and> [[85 / 256], [- (127 / 128)]]
                         ! (l * (nat input_cycle * nat weight_cycle) + (i * nat weight_cycle + j))
                        = map (rescale_spec ?hw weight_step input_step output_step
                                 (fst (output_row example_buffer)) weight_cycle input_cycle (int i) (int j)) raw)"
    by blast
  have il: "input_list = [[1, 2]]" using sp by (simp add: example_fc_def)
  have cy: "weight_cycle = 2" "input_cycle = 1"
    using wc ic by (simp_all add: example_fc_def example_buffer_def get_cycle_def)
  have ss: "weight_step = 1" "input_step = 1" "output_step = 1"
    using st by (simp_all add: example_buffer_def)
  have ob: "fst (output_row example_buffer) = 3" "fst (input_row example_buffer) = 3" "dac_bit ?hw = 2"
    by (simp_all add: example_buffer_def example_fc_def)
  from pairs [rule_format, of 0] obtain digits where
    d: "split_by_bit [1, 2] (Some 1) 3 2 = Returns digits"
    and p: "\<forall>i<nat 1. \<forall>j<nat 2.
                  \<exists>raw. partial_func example_fc (digits ! i) ([[[1, 0], [0, - 1]]] ! 0 ! j) = Returns raw
                    \<and> [[85 / 256], [- (127 / 128)]] ! (0 * (nat 1 * nat 2) + (i * nat 2 + j))
                        = map (rescale_spec ?hw 1 1 1 3 2 1 (int i) (int j)) raw"
    unfolding il cy ss ob by auto
  have "split_by_bit [1, 2] (Some 1) 3 2 = Returns [[1, 2]]" by code_simp
  with d have dg: "digits = [[1, 2]]" by simp
  have pf: "partial_func example_fc [1, 2] [1, 0] = Returns [1]"
    "partial_func example_fc [1, 2] [0, - 1] = Returns [- 2]"
    by (simp_all add: example_fc_def)
  from p [rule_format, of 0 0] obtain raw0 where
    "partial_func example_fc [1, 2] [1, 0] = Returns raw0"
    "[85 / 256] = map (rescale_spec ?hw 1 1 1 3 2 1 0 0) raw0"
    unfolding dg by auto
  then have a: "[85 / 256] = map (rescale_spec ?hw 1 1 1 3 2 1 0 0) [1]" using pf(1) by simp
  from p [rule_format, of 0 1] obtain raw1 where
    "partial_func example_fc [1, 2] [0, - 1] = Returns raw1"
    "[- (127 / 128)] = map (rescale_spec ?hw 1 1 1 3 2 1 0 1) raw1"
    unfolding dg by auto
  then have b: "[- (127 / 128)] = map (rescale_spec ?hw 1 1 1 3 2 1 0 1) [- 2]" using pf(2) by simp
  show ?thesis using run a b by blast
qed

subsection \<open>The forward modes and the buffer\<close>

text \<open>
  In weight mode the scale is a maximum of finitely many numbers, so the first quantization
  of \<^verbatim>\<open>FIX_TRAIN\<close> never leaves the finite values: the buffer that \<open>forward\<close> returns is
  the buffer of the source in every case.
\<close>

lemma Quantize_weight_finite:
  "mode quantize_cfg = ''weight'' \<Longrightarrow> snd (Quantize inputs quantize_cfg row) \<noteq> NonFinite"
  by (simp add: Quantize_def get_scale_def Let_def)

text \<open>The instance in the two quantizing modes.\<close>

lemma example_FIX_TRAIN:
  "forward example_fc (get_buffer_list (layer_ini example_fc)) [1, 2] ''FIX_TRAIN'' None
     = (\<lparr>input_row = (3, Some (- 1)), weight_row = (3, Some (2 / 3)), output_row = (3, Some (- 1))\<rparr>,
        Returns [- 3])"
  by (simp add: forward_def example_fc_def get_buffer_list_def Quantize_def get_scale_def
      r_scale_of_def get_thres_def torch_clamp_def torch_round_def Let_def)

lemma example_SINGLE_FIX_TEST:
  "forward example_fc example_buffer [1, 2] ''SINGLE_FIX_TEST'' (Some [(3, Some 1)])
     = (example_buffer, Returns [- 2])"
proof -
  have b: "example_buffer\<lparr>input_row := (3, Some 1)\<rparr> = example_buffer"
    by (simp add: example_buffer_def)
  have q: "get_quantize_weight_bit_list example_fc example_buffer = Returns [[[1, 0], [0, - 1]]]"
    by code_simp
  have s: "set_weights_forward example_fc example_buffer [1, 2] [[[1, 0], [0, - 1]]] = Returns [- 2]"
    by code_simp
  have t: "\<not> training example_fc" by (simp add: example_fc_def)
  show ?thesis using t by (simp add: forward_def Let_def b q s)
qed

lemma Quantize_bit:
  "fst (fst (Quantize inputs quantize_cfg row)) = fst row
   \<or> fst (fst (Quantize inputs quantize_cfg row)) = cfg_bit quantize_cfg"
  by (auto simp: Quantize_def Let_def split: outcome.splits option.splits)

lemma Quantize_keeps_bit:
  "cfg_bit quantize_cfg = fst row \<Longrightarrow> fst (fst (Quantize inputs quantize_cfg row)) = fst row"
  using Quantize_bit [of inputs quantize_cfg row] by auto

lemma forward_FIX_TRAIN_buffer:
  "\<exists>row1 row2. fst row1 = fst (weight_row bsl) \<and> fst row2 = fst (output_row bsl)
     \<and> (fst (forward self bsl inputs ''FIX_TRAIN'' input_config) = bsl
        \<or> fst (forward self bsl inputs ''FIX_TRAIN'' input_config) = bsl\<lparr>weight_row := row1\<rparr>
        \<or> fst (forward self bsl inputs ''FIX_TRAIN'' input_config)
             = bsl\<lparr>weight_row := row1, output_row := row2\<rparr>)"
proof (cases "torch_cat self (map weight (layer_list self))")
  case (Raises e)
  then have "fst (forward self bsl inputs ''FIX_TRAIN'' input_config) = bsl"
    by (simp add: forward_def)
  then show ?thesis by blast
next
  case NonFinite
  then have "fst (forward self bsl inputs ''FIX_TRAIN'' input_config) = bsl"
    by (simp add: forward_def)
  then show ?thesis by blast
next
  case (Returns weight_total)
  let ?wcfg = "\<lparr>mode = ''weight'', phase = None, cfg_bit = fst (weight_row bsl)\<rparr>"
  obtain row1 result1 where q1: "Quantize weight_total ?wcfg (weight_row bsl) = (row1, result1)"
    by (cases "Quantize weight_total ?wcfg (weight_row bsl)") auto
  have b1: "fst row1 = fst (weight_row bsl)"
    using Quantize_keeps_bit [of ?wcfg "weight_row bsl" weight_total] q1 by simp
  let ?bsl1 = "bsl\<lparr>weight_row := row1\<rparr>"
  let ?ocfg = "\<lparr>mode = ''activation'', phase = Some (if training self then ''train'' else ''test''),
                  cfg_bit = fst (output_row ?bsl1)\<rparr>"
  have stop: "fst (forward self bsl inputs ''FIX_TRAIN'' input_config) = ?bsl1"
    if "\<And>quantize_weight out. \<not> (result1 = Returns quantize_weight
            \<and> partial_func self inputs quantize_weight = Returns out)"
    using that Returns q1
    by (cases result1; cases "partial_func self inputs (case result1 of Returns w \<Rightarrow> w | _ \<Rightarrow> [])")
       (simp_all add: forward_def Let_def)
  show ?thesis
  proof (cases "\<exists>quantize_weight out. result1 = Returns quantize_weight
            \<and> partial_func self inputs quantize_weight = Returns out")
    case False
    then have "fst (forward self bsl inputs ''FIX_TRAIN'' input_config) = ?bsl1"
      by (intro stop) blast
    with b1 show ?thesis by blast
  next
    case True
    then obtain quantize_weight out where
      r: "result1 = Returns quantize_weight" "partial_func self inputs quantize_weight = Returns out"
      by blast
    obtain row2 result2 where q2: "Quantize out ?ocfg (output_row ?bsl1) = (row2, result2)"
      by (cases "Quantize out ?ocfg (output_row ?bsl1)") auto
    have b2: "fst row2 = fst (output_row bsl)"
      using Quantize_keeps_bit [of ?ocfg "output_row ?bsl1" out] q2 by simp
    have "fst (forward self bsl inputs ''FIX_TRAIN'' input_config) = bsl\<lparr>weight_row := row1, output_row := row2\<rparr>"
      using Returns q1 r q2 by (simp add: forward_def Let_def)
    with b1 b2 show ?thesis by blast
  qed
qed

lemma forward_bit_widths:
  "fst (weight_row (fst (forward self bsl inputs method input_config))) = fst (weight_row bsl)
   \<and> fst (output_row (fst (forward self bsl inputs method input_config))) = fst (output_row bsl)"
proof (cases "method = ''FIX_TRAIN''")
  case True
  from forward_FIX_TRAIN_buffer [of bsl self inputs input_config] show ?thesis
    unfolding True by auto
next
  case False
  then show ?thesis
    by (simp add: forward_def Let_def split: option.splits list.splits)
qed

text \<open>
  C7. The hardware-accurate mode \<^verbatim>\<open>SINGLE_FIX_TEST\<close> fails with an assertion error, the buffer
  untouched, when the layer is in training and when no input configuration is supplied; so
  does a call with a method other than \<^verbatim>\<open>TRADITION\<close>, \<^verbatim>\<open>FIX_TRAIN\<close> and \<^verbatim>\<open>SINGLE_FIX_TEST\<close>.
\<close>

theorem forward_failures:
  "(training self \<longrightarrow>
      forward self bsl inputs ''SINGLE_FIX_TEST'' input_config = (bsl, Raises AssertionError))
   \<and> forward self bsl inputs ''SINGLE_FIX_TEST'' None = (bsl, Raises AssertionError)
   \<and> (method \<noteq> ''TRADITION'' \<and> method \<noteq> ''FIX_TRAIN'' \<and> method \<noteq> ''SINGLE_FIX_TEST'' \<longrightarrow>
      forward self bsl inputs method input_config = (bsl, Raises AssertionError))"
  by (simp add: forward_def)

theorem forward_failures_witness:
  "forward (example_fc\<lparr>training := True\<rparr>) example_buffer [1, 2] ''SINGLE_FIX_TEST'' (Some [(3, Some 1)])
      = (example_buffer, Raises AssertionError)
   \<and> forward example_fc example_buffer [1, 2] ''SINGLE_FIX_TEST'' None = (example_buffer, Raises AssertionError)
   \<and> forward example_fc example_buffer [1, 2] ''FULL_PRECISION'' None = (example_buffer, Raises AssertionError)"
  using forward_failures [of "example_fc\<lparr>training := True\<rparr>" example_buffer "[1, 2]" "Some [(3, Some 1)]"
      "''FULL_PRECISION''"]
    forward_failures [of example_fc example_buffer "[1, 2]" None "''FULL_PRECISION''"]
  by simp

text \<open>
  C8. A \<^verbatim>\<open>SINGLE_FIX_TEST\<close> call outside training with a supplied input configuration
  overwrites the input row of the buffer with the first supplied row and changes nothing
  else, whatever the outcome of the call; the weight row and the output row are unchanged
  after every \<^verbatim>\<open>SINGLE_FIX_TEST\<close> call.
\<close>

theorem forward_SINGLE_FIX_TEST_rows:
  "(\<not> training self \<longrightarrow>
      fst (forward self bsl inputs ''SINGLE_FIX_TEST'' (Some (row # rows))) = bsl\<lparr>input_row := row\<rparr>
      \<and> input_row (fst (forward self bsl inputs ''SINGLE_FIX_TEST'' (Some (row # rows)))) = row)
   \<and> weight_row (fst (forward self bsl inputs ''SINGLE_FIX_TEST'' input_config)) = weight_row bsl
   \<and> output_row (fst (forward self bsl inputs ''SINGLE_FIX_TEST'' input_config)) = output_row bsl"
  by (simp add: forward_def Let_def split: option.splits list.splits)

theorem forward_SINGLE_FIX_TEST_rows_witness:
  "\<not> training example_fc
   \<and> fst (forward example_fc (get_buffer_list (layer_ini example_fc)) [1, 2] ''SINGLE_FIX_TEST''
            (Some [(5, Some (1 / 4))]))
      = \<lparr>input_row = (5, Some (1 / 4)), weight_row = (3, Some (- 1)), output_row = (3, Some (- 1))\<rparr>"
proof -
  have t: "\<not> training example_fc" by (simp add: example_fc_def)
  have b: "get_buffer_list (layer_ini example_fc)
      = \<lparr>input_row = (3, Some (- 1)), weight_row = (3, Some (- 1)), output_row = (3, Some (- 1))\<rparr>"
    by (simp add: get_buffer_list_def example_fc_def)
  show ?thesis
    using t forward_SINGLE_FIX_TEST_rows [of example_fc "get_buffer_list (layer_ini example_fc)" "[1, 2]"
        "(5, Some (1 / 4))" "[]" None]
    unfolding b by simp
qed

text \<open>
  C9. After any sequence of forward calls, in any modes and with any outcomes, on a buffer
  that started as \<^verbatim>\<open>get_buffer_list\<close> built it, the bit widths of the weight row and of the
  output row are those of the configuration; a quantization that is given the bit width of
  the row it writes to leaves that bit width as it is.
\<close>

theorem bit_widths_invariant:
  "fst (weight_row (run_forwards (get_buffer_list ini) calls)) = bits_weight (quantize ini)
   \<and> fst (output_row (run_forwards (get_buffer_list ini) calls)) = bits_output (quantize ini)
   \<and> fst (fst (Quantize inputs \<lparr>mode = m, phase = p, cfg_bit = fst row\<rparr> row)) = fst row"
proof -
  have "fst (weight_row (run_forwards bsl calls)) = fst (weight_row bsl)
      \<and> fst (output_row (run_forwards bsl calls)) = fst (output_row bsl)" for bsl
  proof (induction calls arbitrary: bsl)
    case Nil
    show ?case by simp
  next
    case (Cons c calls)
    obtain self inputs mode_name config where c: "c = (self, inputs, mode_name, config)"
      by (cases c) auto
    show ?case unfolding c run_forwards.simps
      using Cons.IH [of "fst (forward self bsl inputs mode_name config)"]
        forward_bit_widths [of self bsl inputs mode_name config] by simp
  qed
  moreover have "fst (fst (Quantize inputs \<lparr>mode = m, phase = p, cfg_bit = fst row\<rparr> row)) = fst row"
    by (rule Quantize_keeps_bit) simp
  ultimately show ?thesis by (simp add: get_buffer_list_def)
qed

text \<open>
  C10. A call in the full-precision mode \<^verbatim>\<open>TRADITION\<close> returns the buffer as it was, all
  three rows; its outcome is that of splitting the input, calling the sub-modules on the
  parts and summing their outputs.
\<close>

theorem forward_TRADITION_frame:
  "forward self bsl inputs ''TRADITION'' input_config =
     (bsl,
      obind (torch_split self inputs (input_split_num self)) (\<lambda>input_list.
      obind (omap (\<lambda>(l, v). call l v) (zip (layer_list self) input_list)) (\<lambda>output_list.
      torch_stack_sum self output_list)))"
  by (simp add: forward_def)

subsection \<open>Partition plan\<close>

lemma sum_list_replicate_int: "sum_list (replicate n (b::int)) = int n * b"
  by (induction n) (simp_all add: algebra_simps)

text \<open>
  C5. For positive \<open>D\<close> and \<open>rows_per_partition\<close> the plan is \<open>D div rows_per_partition\<close>
  chunks of size \<open>rows_per_partition\<close>, followed by one chunk of size
  \<open>D mod rows_per_partition\<close> exactly when that remainder is not zero; the sizes sum to \<open>D\<close>
  and at most one chunk is undersized. With \<open>D \<le> 0\<close> or \<open>rows_per_partition \<le> 0\<close> the
  assertion fails. \<open>D = 20\<close>, \<open>rows_per_partition = 8\<close> gives \<open>[8, 8, 4]\<close>.
\<close>

theorem split_by_num_plan:
  "(0 < D \<and> 0 < rows \<longrightarrow>
      (\<exists>plan. split_by_num D rows = Returns plan
         \<and> plan = replicate (nat (D div rows)) rows @ (if D mod rows \<noteq> 0 then [D mod rows] else [])
         \<and> sum_list plan = D
         \<and> length (filter (\<lambda>c. c \<noteq> rows) plan) \<le> 1
         \<and> (\<forall>c \<in> set plan. 0 < c \<and> c \<le> rows)))
   \<and> (D \<le> 0 \<or> rows \<le> 0 \<longrightarrow> split_by_num D rows = Raises AssertionError)
   \<and> split_by_num 20 8 = Returns [8, 8, 4]"
proof (intro conjI impI)
  assume pos: "0 < D \<and> 0 < rows"
  let ?plan = "replicate (nat (D div rows)) rows @ (if D mod rows \<noteq> 0 then [D mod rows] else [])"
  from pos have m: "0 \<le> D mod rows" "D mod rows < rows" by simp_all
  from pos have d: "0 \<le> D div rows" by (simp add: pos_imp_zdiv_nonneg_iff)
  have ret: "split_by_num D rows = Returns ?plan"
    using pos m by (auto simp: split_by_num_def)
  have "sum_list ?plan = (D div rows) * rows + D mod rows"
    using d by (cases "D mod rows = 0") (simp_all add: sum_list_replicate_int)
  also have "\<dots> = D" by (rule div_mult_mod_eq)
  finally have total: "sum_list ?plan = D" .
  have under: "length (filter (\<lambda>c. c \<noteq> rows) ?plan) \<le> 1" by simp
  have range: "\<forall>c \<in> set ?plan. 0 < c \<and> c \<le> rows"
    using pos m by (auto split: if_splits)
  show "\<exists>plan. split_by_num D rows = Returns plan
         \<and> plan = replicate (nat (D div rows)) rows @ (if D mod rows \<noteq> 0 then [D mod rows] else [])
         \<and> sum_list plan = D
         \<and> length (filter (\<lambda>c. c \<noteq> rows) plan) \<le> 1
         \<and> (\<forall>c \<in> set plan. 0 < c \<and> c \<le> rows)"
    using ret total under range by blast
next
  assume "D \<le> 0 \<or> rows \<le> 0"
  then show "split_by_num D rows = Raises AssertionError"
    by (auto simp: split_by_num_def)
next
  show "split_by_num 20 8 = Returns [8, 8, 4]"
    by (simp add: split_by_num_def numeral_eq_Suc)
qed

theorem split_by_num_plan_witness:
  "split_by_num 10 3 = Returns [3, 3, 3, 1] \<and> sum_list [3, 3, 3, 1] = (10::int)
   \<and> split_by_num 0 3 = Raises AssertionError \<and> split_by_num 6 3 = Returns [3, 3]"
proof -
  have a: "split_by_num 10 3 = Returns [3, 3, 3, 1]"
    using split_by_num_plan [of 10 3] by (simp add: numeral_eq_Suc)
  have b: "split_by_num 0 3 = Raises AssertionError"
    using split_by_num_plan [of 0 3] by simp
  have c: "split_by_num 6 3 = Returns [3, 3]"
    using split_by_num_plan [of 6 3] by (simp add: numeral_eq_Suc)
  show ?thesis using a b c by simp
qed

end
